theory Spec2Isabelle
  imports Complex_Main "HOL-Library.Word" "HOL-Library.Multiset"
begin

section \<open>JavaScript strings\<close>

text \<open>
  A JavaScript string is a sequence of UTF-16 code units; \<open>length\<close>, \<open>lastIndexOf\<close> and
  \<open>substring\<close> count code units. String literals of the source are ASCII and are written
  \<open>js ''...''\<close>.
\<close>

type_synonym jsstring = "16 word list"

definition js :: "string \<Rightarrow> jsstring" where
  "js s = map of_char s"

text \<open>
  \<open>String.prototype.toLowerCase\<close> follows the Unicode default case conversion. The model
  writes out the ASCII letters and U+0130 (LATIN CAPITAL LETTER I WITH DOT ABOVE), whose lower
  case is the two code units U+0069 U+0307 (SpecialCasing.txt) and which is the mapping that
  makes the result longer than the receiver. The other ASCII code units are caseless. The
  mapping of the remaining code units is the parameter \<open>other\<close>, one code unit to one.
\<close>

definition lowerUnit :: "(16 word \<Rightarrow> 16 word) \<Rightarrow> 16 word \<Rightarrow> jsstring" where
  "lowerUnit other c =
     (if 0x41 \<le> c \<and> c \<le> 0x5A then [c + 0x20]
      else if c = 0x130 then [0x69, 0x307]
      else if c < 0x80 then [c]
      else [other c])"

definition toLowerCase :: "(16 word \<Rightarrow> 16 word) \<Rightarrow> jsstring \<Rightarrow> jsstring" where
  "toLowerCase other s = concat (map (lowerUnit other) s)"

text \<open>\<open>s.lastIndexOf(c)\<close> for a one-unit search string: the greatest index holding \<open>c\<close>, or -1.\<close>

definition lastIndexOf :: "jsstring \<Rightarrow> 16 word \<Rightarrow> int" where
  "lastIndexOf s c =
     (if c \<in> set s then int (length s) - 1 - int (length (takeWhile (\<lambda>x. x \<noteq> c) (rev s)))
      else - 1)"

text \<open>\<open>s.substring(start)\<close>: a negative start counts as 0, one beyond the end as the length.\<close>

definition substring :: "jsstring \<Rightarrow> int \<Rightarrow> jsstring" where
  "substring s start =
     (if start < 0 then s
      else if int (length s) < start then []
      else drop (nat start) s)"

text \<open>
  \<open>path.split(/[/\\]/).pop()\<close>: the part of the path after its last slash or backslash (the
  whole path when it has none).
\<close>

definition isSeparator :: "16 word \<Rightarrow> bool" where
  "isSeparator c = (c = 0x2F \<or> c = 0x5C)"

definition lastSegment :: "jsstring \<Rightarrow> jsstring" where
  "lastSegment p = rev (takeWhile (\<lambda>c. \<not> isSeparator c) (rev p))"

text \<open>\<open>a || b\<close> on strings: the empty string is falsy.\<close>

definition orElse :: "jsstring \<Rightarrow> jsstring \<Rightarrow> jsstring" where
  "orElse a b = (if a = [] then b else a)"

text \<open>\<open>a || b\<close> where \<open>a\<close> may be \<open>null\<close>.\<close>

definition orElseNull :: "jsstring option \<Rightarrow> jsstring \<Rightarrow> jsstring" where
  "orElseNull a b = (case a of None \<Rightarrow> b | Some x \<Rightarrow> orElse x b)"

text \<open>\<open>const filename = path.split(/[/\\]/).pop() || path\<close>\<close>

definition filenameOf :: "jsstring \<Rightarrow> jsstring" where
  "filenameOf p = orElse (lastSegment p) p"

section \<open>types.ts\<close>

record AudioClip =
  clip_id :: jsstring
  clip_path :: jsstring
  clip_name :: jsstring
  clip_duration :: real
  clip_size :: nat

record StitchResult =
  success :: bool
  output_path :: "jsstring option"
  error :: "jsstring option"

record AudioInfo =
  info_duration :: real
  info_size :: nat
  info_valid :: bool
  info_error :: "jsstring option"

definition SUPPORTED_EXTENSIONS :: "jsstring list" where
  "SUPPORTED_EXTENSIONS =
     [js ''.mp3'', js ''.wav'', js ''.ogg'', js ''.flac'',
      js ''.m4a'', js ''.aac'', js ''.wma'', js ''.opus'']"

record bitrate_option =
  opt_label :: jsstring
  opt_value :: jsstring

definition BITRATE_OPTIONS :: "bitrate_option list" where
  "BITRATE_OPTIONS =
     [\<lparr>opt_label = js ''128 kbps'', opt_value = js ''128k''\<rparr>,
      \<lparr>opt_label = js ''192 kbps'', opt_value = js ''192k''\<rparr>,
      \<lparr>opt_label = js ''256 kbps'', opt_value = js ''256k''\<rparr>,
      \<lparr>opt_label = js ''320 kbps'', opt_value = js ''320k''\<rparr>]"

datatype ExportFormat = mp3 | mp4

datatype ImageFitMode = fit | fill

definition SUPPORTED_IMAGE_EXTENSIONS :: "jsstring list" where
  "SUPPORTED_IMAGE_EXTENSIONS =
     [js ''.png'', js ''.jpg'', js ''.jpeg'', js ''.webp'', js ''.gif'']"

record VideoConfig =
  image_path :: "jsstring option"
  fit_mode :: ImageFitMode

record ImageInfo =
  img_width :: nat
  img_height :: nat
  img_valid :: bool
  img_error :: "jsstring option"

record BackgroundImage =
  bg_path :: jsstring
  bg_name :: jsstring
  bg_width :: nat
  bg_height :: nat

section \<open>App: helpers\<close>

text \<open>
  \<open>const ext = filename.toLowerCase().substring(filename.lastIndexOf('.'));
  return SUPPORTED_EXTENSIONS.includes(ext);\<close>
  The index is taken in \<open>filename\<close> and used in the lower-cased copy.
\<close>

definition isSupportedAudio :: "(16 word \<Rightarrow> 16 word) \<Rightarrow> jsstring \<Rightarrow> bool" where
  "isSupportedAudio other filename =
     (let ext = substring (toLowerCase other filename) (lastIndexOf filename 0x2E)
      in ext \<in> set SUPPORTED_EXTENSIONS)"

text \<open>
  The check as the specification words it: the part of the filename from its last \<open>'.'\<close> to
  its end, lower-cased, is a supported extension; a filename with no \<open>'.'\<close> is rejected.
\<close>

definition extensionOf :: "jsstring \<Rightarrow> jsstring option" where
  "extensionOf filename =
     (if 0x2E \<in> set filename then Some (drop (nat (lastIndexOf filename 0x2E)) filename)
      else None)"

definition spec_isSupportedAudio :: "(16 word \<Rightarrow> 16 word) \<Rightarrow> jsstring \<Rightarrow> bool" where
  "spec_isSupportedAudio other filename =
     (case extensionOf filename of
        None \<Rightarrow> False
      | Some e \<Rightarrow> toLowerCase other e \<in> set SUPPORTED_EXTENSIONS)"

text \<open>
  \<open>String(n)\<close> for an array length: the decimal digits (used in one toast message).
\<close>

function numberToString :: "nat \<Rightarrow> jsstring" where
  "numberToString n =
     (if n < 10 then [of_nat (48 + n)]
      else numberToString (n div 10) @ [of_nat (48 + n mod 10)])"
  by pat_completeness auto
termination
  by (relation "measure (\<lambda>n. n)") auto

declare numberToString.simps [simp del]

section \<open>App: state\<close>

text \<open>
  The component's \<open>useState\<close> cells, in the order of the source, with their initial values.
  A handler is modelled as one atomic transition from the state it was rendered with: it
  returns the next state and the external calls (\<open>invoke\<close>, dialogs) it made, in order.
\<close>

datatype toast_type = ToastSuccess | ToastError

record ffmpeg_status =
  installed :: bool
  version :: "jsstring option"
  status_error :: "jsstring option"

record app_state =
  clips :: "AudioClip list"
  outputName :: jsstring
  bitrate :: jsstring
  isProcessing :: bool
  isDragging :: bool
  ffmpegStatus :: "ffmpeg_status option"
  toast :: "(toast_type \<times> jsstring) option"
  draggedIndex :: "nat option"
  isInTauri :: bool
  exportFormat :: ExportFormat
  backgroundImage :: "BackgroundImage option"
  imageFitMode :: ImageFitMode

definition initial :: app_state where
  "initial =
     \<lparr>clips = [], outputName = js ''combined_audio'', bitrate = js ''256k'',
      isProcessing = False, isDragging = False, ffmpegStatus = None, toast = None,
      draggedIndex = None, isInTauri = False, exportFormat = mp3,
      backgroundImage = None, imageFitMode = fit\<rparr>"

section \<open>App: the outside world\<close>

text \<open>
  An awaited call either returns or throws; the thrown value is kept as the string it prints
  as. \<open>selection\<close> is what the open dialog resolves to: \<open>null\<close>, one path or an array.
\<close>

datatype 'a outcome = Threw jsstring | Returned 'a

datatype selection = NoSelection | One jsstring | Many "jsstring list"

text \<open>
  What the host answers during one handler: the Tauri commands (implemented by the Rust
  backend, which the handlers only call), the dialogs, \<open>Math.random\<close> behind \<open>generateId\<close>
  (the k-th identifier drawn during the handler), and the case table behind \<open>toLowerCase\<close>.
  A command is a function of its arguments for the duration of one handler.
\<close>

record env =
  lowerOther :: "16 word \<Rightarrow> 16 word"
  isTauri :: bool
  getTauriApis :: "unit outcome"
  check_ffmpeg :: "jsstring outcome"
  get_audio_info :: "jsstring \<Rightarrow> AudioInfo outcome"
  get_image_info :: "jsstring \<Rightarrow> ImageInfo outcome"
  stitch_audio :: "AudioClip list \<Rightarrow> jsstring \<Rightarrow> jsstring \<Rightarrow> StitchResult outcome"
  stitch_video ::
    "AudioClip list \<Rightarrow> jsstring \<Rightarrow> jsstring \<Rightarrow> VideoConfig \<Rightarrow> StitchResult outcome"
  open_dialog :: "selection outcome"
  save_dialog :: "jsstring option outcome"
  generateId :: "nat \<Rightarrow> jsstring"

text \<open>The external calls a handler makes: \<open>invoke(command, args)\<close>, \<open>open(...)\<close>, \<open>save(...)\<close>.\<close>

datatype call =
    Check_ffmpeg
  | Get_audio_info jsstring
  | Get_image_info jsstring
  | Stitch_audio "AudioClip list" jsstring jsstring
  | Stitch_video "AudioClip list" jsstring jsstring VideoConfig
  | Open_dialog bool jsstring "jsstring list"
  | Save_dialog jsstring jsstring "jsstring list"

section \<open>App: handlers\<close>

text \<open>
  \<open>showToast\<close> sets the toast; the timer it starts clears the toast later (\<open>closeToast\<close>,
  which is also the toast's close button).
\<close>

definition showToast :: "toast_type \<Rightarrow> jsstring \<Rightarrow> app_state \<Rightarrow> app_state" where
  "showToast t m s = s\<lparr>toast := Some (t, m)\<rparr>"

definition closeToast :: "app_state \<Rightarrow> app_state" where
  "closeToast s = s\<lparr>toast := None\<rparr>"

text \<open>The effect run on mount.\<close>

definition mount :: "env \<Rightarrow> app_state \<Rightarrow> app_state \<times> call list" where
  "mount e s =
     (let s1 = s\<lparr>isInTauri := isTauri e\<rparr>
      in if isTauri e then
           (case getTauriApis e of
              Threw err \<Rightarrow>
                (s1\<lparr>ffmpegStatus :=
                      Some \<lparr>installed = False, version = None, status_error = Some err\<rparr>\<rparr>, [])
            | Returned _ \<Rightarrow>
                (case check_ffmpeg e of
                   Threw err \<Rightarrow>
                     (s1\<lparr>ffmpegStatus :=
                           Some \<lparr>installed = False, version = None, status_error = Some err\<rparr>\<rparr>,
                      [Check_ffmpeg])
                 | Returned v \<Rightarrow>
                     (s1\<lparr>ffmpegStatus :=
                           Some \<lparr>installed = True, version = Some v, status_error = None\<rparr>\<rparr>,
                      [Check_ffmpeg])))
         else
           (s1\<lparr>ffmpegStatus :=
                 Some \<lparr>installed = False, version = None,
                       status_error = Some (js ''Not running in Tauri desktop app'')\<rparr>\<rparr>, []))"

text \<open>
  The body of \<open>for (const path of paths)\<close> in \<open>addAudioFiles\<close>, over the rest of the paths.
  The loop's variables are \<open>newClips\<close>, the state (only its toast changes) and the calls made.
\<close>

fun addAudioFiles_loop ::
  "env \<Rightarrow> jsstring list \<Rightarrow> AudioClip list \<times> app_state \<times> call list
     \<Rightarrow> AudioClip list \<times> app_state \<times> call list" where
  "addAudioFiles_loop e [] acc = acc"
| "addAudioFiles_loop e (path # rest) (newClips, s, calls) =
     (let filename = filenameOf path
      in if \<not> isSupportedAudio (lowerOther e) filename then
           addAudioFiles_loop e rest
             (newClips, showToast ToastError (js ''Unsupported format: '' @ filename) s, calls)
         else
           (case get_audio_info e path of
              Threw err \<Rightarrow>
                addAudioFiles_loop e rest
                  (newClips, showToast ToastError (js ''Error reading: '' @ filename) s,
                   calls @ [Get_audio_info path])
            | Returned info \<Rightarrow>
                if info_valid info then
                  addAudioFiles_loop e rest
                    (newClips @
                       [\<lparr>clip_id = generateId e (length newClips), clip_path = path,
                         clip_name = filename, clip_duration = info_duration info,
                         clip_size = info_size info\<rparr>],
                     s, calls @ [Get_audio_info path])
                else
                  addAudioFiles_loop e rest
                    (newClips,
                     showToast ToastError
                       (orElseNull (info_error info) (js ''Invalid audio: '' @ filename)) s,
                     calls @ [Get_audio_info path])))"

definition addAudioFiles :: "env \<Rightarrow> jsstring list \<Rightarrow> app_state \<Rightarrow> app_state \<times> call list" where
  "addAudioFiles e paths s =
     (if \<not> isInTauri s then
        (showToast ToastError (js ''File operations require the Tauri desktop app'') s, [])
      else
        (case getTauriApis e of
           Threw err \<Rightarrow> (s, [])
         | Returned _ \<Rightarrow>
             (case addAudioFiles_loop e paths ([], s, []) of
                (newClips, s1, calls) \<Rightarrow>
                  if length newClips > 0 then
                    (showToast ToastSuccess
                       (js ''Added '' @ numberToString (length newClips) @ js '' clip''
                          @ (if length newClips > 1 then js ''s'' else []))
                       (s1\<lparr>clips := clips s1 @ newClips\<rparr>),
                     calls)
                  else (s1, calls))))"

text \<open>The audio file picker.\<close>

definition audioDialog :: call where
  "audioDialog =
     Open_dialog True (js ''Audio Files'')
       [js ''mp3'', js ''wav'', js ''ogg'', js ''flac'', js ''m4a'', js ''aac'', js ''wma'',
        js ''opus'']"

definition handleBrowse :: "env \<Rightarrow> app_state \<Rightarrow> app_state \<times> call list" where
  "handleBrowse e s =
     (if \<not> isInTauri s then
        (showToast ToastError (js ''File picker requires the Tauri desktop app'') s, [])
      else
        (case getTauriApis e of
           Threw err \<Rightarrow>
             (showToast ToastError (js ''Error opening file picker: '' @ err) s, [])
         | Returned _ \<Rightarrow>
             (case open_dialog e of
                Threw err \<Rightarrow>
                  (showToast ToastError (js ''Error opening file picker: '' @ err) s,
                   [audioDialog])
              | Returned NoSelection \<Rightarrow> (s, [audioDialog])
              | Returned (One p) \<Rightarrow>
                  if p = [] then (s, [audioDialog])
                  else (case addAudioFiles e [p] s of
                          (s1, calls) \<Rightarrow> (s1, audioDialog # calls))
              | Returned (Many ps) \<Rightarrow>
                  (case addAudioFiles e ps s of
                     (s1, calls) \<Rightarrow> (s1, audioDialog # calls)))))"

text \<open>The image picker for the video background.\<close>

definition imageDialog :: call where
  "imageDialog =
     Open_dialog False (js ''Image Files'')
       [js ''png'', js ''jpg'', js ''jpeg'', js ''webp'', js ''gif'']"

definition handleSelectImage :: "env \<Rightarrow> app_state \<Rightarrow> app_state \<times> call list" where
  "handleSelectImage e s =
     (if \<not> isInTauri s then
        (showToast ToastError (js ''Image picker requires the Tauri desktop app'') s, [])
      else
        (case getTauriApis e of
           Threw err \<Rightarrow> (showToast ToastError (js ''Error selecting image: '' @ err) s, [])
         | Returned _ \<Rightarrow>
             (case open_dialog e of
                Threw err \<Rightarrow>
                  (showToast ToastError (js ''Error selecting image: '' @ err) s, [imageDialog])
              | Returned NoSelection \<Rightarrow> (s, [imageDialog])
              | Returned (Many ps) \<Rightarrow> (s, [imageDialog])
              | Returned (One selected) \<Rightarrow>
                  if selected = [] then (s, [imageDialog])
                  else
                    (let filename = filenameOf selected;
                         ext = substring (toLowerCase (lowerOther e) filename)
                                 (lastIndexOf filename 0x2E)
                     in if ext \<notin> set SUPPORTED_IMAGE_EXTENSIONS then
                          (showToast ToastError (js ''Unsupported image format: '' @ filename) s,
                           [imageDialog])
                        else
                          (case get_image_info e selected of
                             Threw err \<Rightarrow>
                               (showToast ToastError (js ''Error selecting image: '' @ err) s,
                                [imageDialog, Get_image_info selected])
                           | Returned info \<Rightarrow>
                               if img_valid info then
                                 (showToast ToastSuccess (js ''Image selected: '' @ filename)
                                    (s\<lparr>backgroundImage :=
                                         Some \<lparr>bg_path = selected, bg_name = filename,
                                               bg_width = img_width info,
                                               bg_height = img_height info\<rparr>\<rparr>),
                                  [imageDialog, Get_image_info selected])
                               else
                                 (showToast ToastError
                                    (orElseNull (img_error info)
                                       (js ''Invalid image: '' @ filename)) s,
                                  [imageDialog, Get_image_info selected]))))))"

definition handleRemoveImage :: "app_state \<Rightarrow> app_state" where
  "handleRemoveImage s = s\<lparr>backgroundImage := None\<rparr>"

text \<open>
  Drag and drop of files. A dropped file's \<open>path\<close> property may be missing (\<open>None\<close>);
  \<open>filter(Boolean)\<close> drops the missing and the empty ones.
\<close>

definition handleDragOver :: "app_state \<Rightarrow> app_state" where
  "handleDragOver s = s\<lparr>isDragging := True\<rparr>"

definition handleDragLeave :: "app_state \<Rightarrow> app_state" where
  "handleDragLeave s = s\<lparr>isDragging := False\<rparr>"

definition truthyPaths :: "jsstring option list \<Rightarrow> jsstring list" where
  "truthyPaths files = filter (\<lambda>p. p \<noteq> []) (List.map_filter (\<lambda>f. f) files)"

definition handleDrop :: "env \<Rightarrow> jsstring option list \<Rightarrow> app_state \<Rightarrow> app_state \<times> call list" where
  "handleDrop e files s =
     (let s1 = s\<lparr>isDragging := False\<rparr>
      in if \<not> isInTauri s then
           (showToast ToastError (js ''Drag & drop requires the Tauri desktop app'') s1, [])
         else
           (let paths = truthyPaths files
            in if length paths > 0 then addAudioFiles e paths s1
               else (showToast ToastError (js ''Could not get file paths'') s1, [])))"

text \<open>The hidden file input's \<open>onChange\<close>.\<close>

definition fileInputChange ::
  "env \<Rightarrow> jsstring option list \<Rightarrow> app_state \<Rightarrow> app_state \<times> call list" where
  "fileInputChange e files s =
     (let paths = truthyPaths files
      in if length paths > 0 then addAudioFiles e paths s else (s, []))"

text \<open>
  Reordering and removal. \<open>moveClip\<close> and \<open>handleDragOverItem\<close> copy the rendered array,
  change the copy and store it. Reading the copy outside its bounds yields \<open>undefined\<close>,
  and the array stored then holds an entry that is no clip. The render that follows reads
  a field of that entry (\<open>clip.duration\<close> in the totals, \<open>clip.id\<close> in the list) and throws,
  and with it the session ends. An array that may hold \<open>undefined\<close> is a list of options,
  \<open>None\<close> for \<open>undefined\<close>; \<open>RenderThrows a rest\<close> is the end of a session whose \<open>clips\<close>
  cell holds the array \<open>a\<close> and whose other cells are those of \<open>rest\<close>.
\<close>

type_synonym clip_array = "AudioClip option list"

datatype crash = RenderThrows clip_array app_state

text \<open>
  \<open>a[i]\<close> and \<open>a[i] = v\<close> on an array: a read outside the bounds is \<open>undefined\<close>; a write
  at a negative index sets a property and no element, one at or beyond the length
  lengthens the array (the positions in between read as \<open>undefined\<close>).
\<close>

definition elementAt :: "'a option list \<Rightarrow> int \<Rightarrow> 'a option" where
  "elementAt a i = (if 0 \<le> i \<and> i < int (length a) then a ! nat i else None)"

definition assignAt :: "'a option list \<Rightarrow> int \<Rightarrow> 'a option \<Rightarrow> 'a option list" where
  "assignAt a i v =
     (if i < 0 then a
      else if i < int (length a) then a[nat i := v]
      else a @ replicate (nat i - length a) None @ [v])"

datatype direction = up | down

text \<open>
  \<open>moveClip\<close> on the state answers \<open>None\<close> where the copy would hold \<open>undefined\<close> (the index
  is no position of the list); \<open>moveClipArray\<close> is the same handler on arrays and gives
  the array stored in every case (the array as it was after the early return).
\<close>

definition moveClip :: "int \<Rightarrow> direction \<Rightarrow> app_state \<Rightarrow> app_state option" where
  "moveClip index dir s =
     (let newIndex = (if dir = up then index - 1 else index + 1)
      in if newIndex < 0 \<or> newIndex \<ge> int (length (clips s)) then Some s
         else if index < 0 \<or> index \<ge> int (length (clips s)) then None
         else Some (s\<lparr>clips :=
                (clips s)[nat index := clips s ! nat newIndex,
                          nat newIndex := clips s ! nat index]\<rparr>))"

definition moveClipArray :: "int \<Rightarrow> direction \<Rightarrow> clip_array \<Rightarrow> clip_array" where
  "moveClipArray index dir a =
     (let newIndex = (if dir = up then index - 1 else index + 1)
      in if newIndex < 0 \<or> newIndex \<ge> int (length a) then a
         else assignAt (assignAt a index (elementAt a newIndex)) newIndex (elementAt a index))"

definition removeClip :: "jsstring \<Rightarrow> app_state \<Rightarrow> app_state" where
  "removeClip i s = s\<lparr>clips := filter (\<lambda>c. clip_id c \<noteq> i) (clips s)\<rparr>"

definition handleDragStart :: "nat \<Rightarrow> app_state \<Rightarrow> app_state" where
  "handleDragStart index s = s\<lparr>draggedIndex := Some index\<rparr>"

definition handleDragEnd :: "app_state \<Rightarrow> app_state" where
  "handleDragEnd s = s\<lparr>draggedIndex := None\<rparr>"

text \<open>
  \<open>const [draggedClip] = newClips.splice(draggedIndex, 1);
  newClips.splice(index, 0, draggedClip);
  setClips(newClips); setDraggedIndex(index);\<close>
  When \<open>draggedIndex\<close> is no position of the list (a clip was removed after the drag
  began), the first \<open>splice\<close> removes nothing and \<open>draggedClip\<close> is \<open>undefined\<close>; the second
  inserts it at \<open>index\<close>, and both cells are stored.
\<close>

definition handleDragOverItem :: "nat \<Rightarrow> app_state \<Rightarrow> crash + app_state" where
  "handleDragOverItem index s =
     (case draggedIndex s of
        None \<Rightarrow> Inr s
      | Some d \<Rightarrow>
          if d = index then Inr s
          else if d \<ge> length (clips s) then
            Inl (RenderThrows
                   (take index (map Some (clips s)) @ [None] @ drop index (map Some (clips s)))
                   (s\<lparr>draggedIndex := Some index\<rparr>))
          else
            (let draggedClip = clips s ! d;
                 without = take d (clips s) @ drop (Suc d) (clips s);
                 newClips = take index without @ [draggedClip] @ drop index without
             in Inr (s\<lparr>clips := newClips, draggedIndex := Some index\<rparr>)))"

text \<open>
  Export. \<open>finishExport\<close> is what follows the awaited stitch command: the toast for its
  result (or the \<open>catch\<close> toast), then the \<open>finally\<close> block. The earlier, audio-only
  revision of the component has the same handlers without the video state; its
  \<open>handleExport\<close> is the one below at \<open>exportFormat = mp3\<close>.
\<close>

definition finishExport :: "bool \<Rightarrow> StitchResult outcome \<Rightarrow> app_state \<Rightarrow> app_state" where
  "finishExport isVideo r s =
     (case r of
        Threw err \<Rightarrow> (showToast ToastError (js ''Export error: '' @ err) s)\<lparr>isProcessing := False\<rparr>
      | Returned result \<Rightarrow>
          (if success result then
             showToast ToastSuccess
               ((if isVideo then js ''Video'' else js ''Audio'') @ js '' exported successfully!'') s
           else
             showToast ToastError (orElseNull (error result) (js ''Export failed'')) s)
          \<lparr>isProcessing := False\<rparr>)"

definition handleExport :: "env \<Rightarrow> app_state \<Rightarrow> app_state \<times> call list" where
  "handleExport e s =
     (if \<not> isInTauri s then
        (showToast ToastError (js ''Export requires the Tauri desktop app'') s, [])
      else if length (clips s) = 0 then
        (showToast ToastError (js ''Add some clips first!'') s, [])
      else
        (case getTauriApis e of
           Threw err \<Rightarrow>
             ((showToast ToastError (js ''Export error: '' @ err) s)\<lparr>isProcessing := False\<rparr>, [])
         | Returned _ \<Rightarrow>
             (let isVideo = (exportFormat s = mp4);
                  fileExtension = (if isVideo then js ''mp4'' else js ''mp3'');
                  filterName = (if isVideo then js ''MP4 Video'' else js ''MP3 Audio'');
                  saveCall = Save_dialog (outputName s @ js ''.'' @ fileExtension) filterName
                               [fileExtension]
              in case save_dialog e of
                   Threw err \<Rightarrow>
                     ((showToast ToastError (js ''Export error: '' @ err) s)
                        \<lparr>isProcessing := False\<rparr>, [saveCall])
                 | Returned None \<Rightarrow> (s\<lparr>isProcessing := False\<rparr>, [saveCall])
                 | Returned (Some outputPath) \<Rightarrow>
                     if outputPath = [] then (s\<lparr>isProcessing := False\<rparr>, [saveCall])
                     else
                       (let s1 = s\<lparr>isProcessing := True\<rparr>
                        in if isVideo then
                             (let videoConfig =
                                    \<lparr>image_path =
                                       (case backgroundImage s of
                                          None \<Rightarrow> None
                                        | Some b \<Rightarrow>
                                            if bg_path b = [] then None else Some (bg_path b)),
                                     fit_mode = imageFitMode s\<rparr>
                              in (finishExport isVideo
                                    (stitch_video e (clips s) outputPath (bitrate s) videoConfig)
                                    s1,
                                  [saveCall,
                                   Stitch_video (clips s) outputPath (bitrate s) videoConfig]))
                           else
                             (finishExport isVideo
                                (stitch_audio e (clips s) outputPath (bitrate s)) s1,
                              [saveCall, Stitch_audio (clips s) outputPath (bitrate s)])))))"

text \<open>
  The settings controls. The output name is a free text input. The bitrate is a \<open>select\<close>
  whose options are rendered from \<open>BITRATE_OPTIONS\<close>: its change event carries the value of
  one of them, here the k-th. Format and fit mode are two buttons each.
\<close>

definition setOutputName :: "jsstring \<Rightarrow> app_state \<Rightarrow> app_state" where
  "setOutputName v s = s\<lparr>outputName := v\<rparr>"

definition setBitrate :: "jsstring \<Rightarrow> app_state \<Rightarrow> app_state" where
  "setBitrate v s = s\<lparr>bitrate := v\<rparr>"

definition bitrateChange :: "nat \<Rightarrow> app_state \<Rightarrow> app_state option" where
  "bitrateChange k s =
     (if k < length BITRATE_OPTIONS then Some (setBitrate (opt_value (BITRATE_OPTIONS ! k)) s)
      else None)"

definition setExportFormat :: "ExportFormat \<Rightarrow> app_state \<Rightarrow> app_state" where
  "setExportFormat f s = s\<lparr>exportFormat := f\<rparr>"

definition setImageFitMode :: "ImageFitMode \<Rightarrow> app_state \<Rightarrow> app_state" where
  "setImageFitMode m s = s\<lparr>imageFitMode := m\<rparr>"

section \<open>App: sessions\<close>

text \<open>
  What can happen to a mounted component: one of its handlers runs, with the answers of the
  outside world for that run. \<open>handle\<close> gives the next state and the calls made, or the
  end of the session where the array stored holds \<open>undefined\<close>. The reorder buttons and
  the drag handlers are bound to positions of the rendered list, which are natural
  numbers. The bitrate control has no change event for an option it does not show: the
  state stays as it is there.
\<close>

datatype event =
    Mount
  | Browse
  | SelectImage
  | RemoveImage
  | DragOver
  | DragLeave
  | Drop "jsstring option list"
  | FileInputChange "jsstring option list"
  | MoveClip nat direction
  | RemoveClip jsstring
  | DragStart nat
  | DragEnd
  | DragOverItem nat
  | Export
  | SetOutputName jsstring
  | BitrateChange nat
  | SetExportFormat ExportFormat
  | SetImageFitMode ImageFitMode
  | CloseToast

fun handle :: "env \<Rightarrow> event \<Rightarrow> app_state \<Rightarrow> crash + (app_state \<times> call list)" where
  "handle e Mount s = Inr (mount e s)"
| "handle e Browse s = Inr (handleBrowse e s)"
| "handle e SelectImage s = Inr (handleSelectImage e s)"
| "handle e RemoveImage s = Inr (handleRemoveImage s, [])"
| "handle e DragOver s = Inr (handleDragOver s, [])"
| "handle e DragLeave s = Inr (handleDragLeave s, [])"
| "handle e (Drop files) s = Inr (handleDrop e files s)"
| "handle e (FileInputChange files) s = Inr (fileInputChange e files s)"
| "handle e (MoveClip index dir) s =
     (case moveClip (int index) dir s of
        Some s' \<Rightarrow> Inr (s', [])
      | None \<Rightarrow> Inl (RenderThrows (moveClipArray (int index) dir (map Some (clips s))) s))"
| "handle e (RemoveClip i) s = Inr (removeClip i s, [])"
| "handle e (DragStart index) s = Inr (handleDragStart index s, [])"
| "handle e DragEnd s = Inr (handleDragEnd s, [])"
| "handle e (DragOverItem index) s =
     (case handleDragOverItem index s of Inl c \<Rightarrow> Inl c | Inr s' \<Rightarrow> Inr (s', []))"
| "handle e Export s = Inr (handleExport e s)"
| "handle e (SetOutputName v) s = Inr (setOutputName v s, [])"
| "handle e (BitrateChange k) s =
     (case bitrateChange k s of Some s' \<Rightarrow> Inr (s', []) | None \<Rightarrow> Inr (s, []))"
| "handle e (SetExportFormat f) s = Inr (setExportFormat f s, [])"
| "handle e (SetImageFitMode m) s = Inr (setImageFitMode m s, [])"
| "handle e CloseToast s = Inr (closeToast s, [])"

inductive reachable :: "app_state \<Rightarrow> bool" where
  reachable_initial: "reachable initial"
| reachable_handle: "reachable s \<Longrightarrow> handle e ev s = Inr (s', calls) \<Longrightarrow> reachable s'"

text \<open>
  A session: handlers run one after the other, each with the same answers; \<open>None\<close> when
  the session ends before the last of them.
\<close>

fun run :: "env \<Rightarrow> event list \<Rightarrow> app_state \<Rightarrow> app_state option" where
  "run e [] s = Some s"
| "run e (ev # evs) s =
     (case handle e ev s of Inl c \<Rightarrow> None | Inr (s', calls) \<Rightarrow> run e evs s')"

text \<open>
  The array in the \<open>clips\<close> cell after a handler, and the clips among its entries.
\<close>

fun clipsAfter :: "crash + (app_state \<times> call list) \<Rightarrow> clip_array" where
  "clipsAfter (Inl (RenderThrows a rest)) = a"
| "clipsAfter (Inr (s', calls)) = map Some (clips s')"

definition definedEntries :: "'a option list \<Rightarrow> 'a list" where
  "definedEntries a = map the (filter (\<lambda>x. x \<noteq> None) a)"

section \<open>Reading the calls of a handler\<close>

text \<open>What a stitch command was handed, and which paths were probed.\<close>

fun clipsHanded :: "call \<Rightarrow> AudioClip list option" where
  "clipsHanded (Stitch_audio cl out b) = Some cl"
| "clipsHanded (Stitch_video cl out b vc) = Some cl"
| "clipsHanded c = None"

fun bitrateHanded :: "call \<Rightarrow> jsstring option" where
  "bitrateHanded (Stitch_audio cl out b) = Some b"
| "bitrateHanded (Stitch_video cl out b vc) = Some b"
| "bitrateHanded c = None"

fun probedPath :: "call \<Rightarrow> jsstring option" where
  "probedPath (Get_audio_info p) = Some p"
| "probedPath c = None"

definition probedPaths :: "call list \<Rightarrow> jsstring list" where
  "probedPaths calls = List.map_filter probedPath calls"

text \<open>
  A path passes the extension check of \<open>addAudioFiles\<close>; the probe of a path answers with
  \<open>valid\<close> set.
\<close>

definition supportedPath :: "env \<Rightarrow> jsstring \<Rightarrow> bool" where
  "supportedPath e p = isSupportedAudio (lowerOther e) (filenameOf p)"

definition probesValid :: "env \<Rightarrow> jsstring \<Rightarrow> bool" where
  "probesValid e p =
     (case get_audio_info e p of Threw err \<Rightarrow> False | Returned info \<Rightarrow> info_valid info)"

section \<open>The encoder command for video\<close>

text \<open>
  Modelled from the spec: the command builder behind the Tauri command \<open>stitch_video\<close>. It
  belongs to the Rust backend, of which the sources hold only the call in \<open>handleExport\<close>.
  The specification (4.2, glossary): given the ordered audio list, an optional image path
  and a fit mode, the argument vector loops the image (or a black frame if no image is
  supplied) as a 1920 x 1080 video stream, applies a scale/pad filter for letterbox mode or
  a scale/crop filter for fill mode, both preserving the aspect ratio, and muxes with the
  concatenated audio at the chosen bitrate; zero clips are rejected before any command is
  built.
\<close>

datatype vfilter = ScaleKeepAspect nat nat | Pad nat nat | Crop nat nat

datatype encoder_arg =
    LoopImage jsstring
  | BlackFrame nat nat
  | ConcatList "jsstring list"
  | FilterChain "vfilter list"
  | AudioBitrate jsstring
  | Output jsstring

definition buildVideoCommand ::
  "AudioClip list \<Rightarrow> jsstring \<Rightarrow> jsstring \<Rightarrow> VideoConfig \<Rightarrow> encoder_arg list option" where
  "buildVideoCommand cl out b vc =
     (if cl = [] then None
      else Some
        [case image_path vc of None \<Rightarrow> BlackFrame 1920 1080 | Some p \<Rightarrow> LoopImage p,
         ConcatList (map clip_path cl),
         FilterChain
           (case fit_mode vc of
              fit \<Rightarrow> [ScaleKeepAspect 1920 1080, Pad 1920 1080]
            | fill \<Rightarrow> [ScaleKeepAspect 1920 1080, Crop 1920 1080]),
         AudioBitrate b,
         Output out])"

fun filterChain :: "encoder_arg \<Rightarrow> vfilter list" where
  "filterChain (FilterChain fs) = fs"
| "filterChain a = []"

definition filtersOf :: "encoder_arg list \<Rightarrow> vfilter list" where
  "filtersOf args = concat (map filterChain args)"

fun isScale :: "vfilter \<Rightarrow> bool" where
  "isScale (ScaleKeepAspect w h) = True"
| "isScale f = False"

fun isPad :: "vfilter \<Rightarrow> bool" where
  "isPad (Pad w h) = True"
| "isPad f = False"

fun isCrop :: "vfilter \<Rightarrow> bool" where
  "isCrop (Crop w h) = True"
| "isCrop f = False"

section \<open>An example session\<close>

text \<open>
  A host where every file probes valid, except one that is reported invalid and one whose
  probe throws; the picker answers with five paths.
\<close>

definition examplePaths :: "jsstring list" where
  "examplePaths =
     [js ''/music/intro.mp3'', js ''/music/notes.txt'', js ''/music/broken.mp3'',
      js ''/music/gone.wav'', js ''/music/OUTRO.MP3'']"

definition exampleEnv :: env where
  "exampleEnv =
     \<lparr>lowerOther = (\<lambda>c. c),
      isTauri = True,
      getTauriApis = Returned (),
      check_ffmpeg = Returned (js ''ffmpeg version 6.0''),
      get_audio_info =
        (\<lambda>p. if p = js ''/music/broken.mp3'' then
                Returned \<lparr>info_duration = 0, info_size = 0, info_valid = False,
                          info_error = Some (js ''Invalid data'')\<rparr>
              else if p = js ''/music/gone.wav'' then Threw (js ''No such file'')
              else Returned \<lparr>info_duration = 12.5, info_size = 2048, info_valid = True,
                             info_error = None\<rparr>),
      get_image_info =
        (\<lambda>p. Returned \<lparr>img_width = 1280, img_height = 720, img_valid = True,
                        img_error = None\<rparr>),
      stitch_audio =
        (\<lambda>cl out b. Returned \<lparr>success = True, output_path = Some out, error = None\<rparr>),
      stitch_video =
        (\<lambda>cl out b vc. Returned \<lparr>success = True, output_path = Some out, error = None\<rparr>),
      open_dialog = Returned (Many examplePaths),
      save_dialog = Returned (Some (js ''/out/mix'')),
      generateId = (\<lambda>k. [of_nat (97 + k)])\<rparr>"

definition imageEnv :: env where
  "imageEnv = exampleEnv\<lparr>open_dialog := Returned (One (js ''/art/logo.JPG''))\<rparr>"

definition clipA :: AudioClip where
  "clipA = \<lparr>clip_id = js ''a'', clip_path = js ''/music/intro.mp3'',
            clip_name = js ''intro.mp3'', clip_duration = 12.5, clip_size = 2048\<rparr>"

definition clipB :: AudioClip where
  "clipB = \<lparr>clip_id = js ''b'', clip_path = js ''/music/OUTRO.MP3'',
            clip_name = js ''OUTRO.MP3'', clip_duration = 12.5, clip_size = 2048\<rparr>"

definition clipC :: AudioClip where
  "clipC = \<lparr>clip_id = js ''c'', clip_path = js ''/music/news.ogg'',
            clip_name = js ''news.ogg'', clip_duration = 30, clip_size = 4096\<rparr>"

definition mounted :: app_state where
  "mounted = initial\<lparr>isInTauri := True\<rparr>"

definition threeClips :: app_state where
  "threeClips = mounted\<lparr>clips := [clipA, clipB, clipC]\<rparr>"

definition cover :: BackgroundImage where
  "cover = \<lparr>bg_path = js ''/art/cover.png'', bg_name = js ''cover.png'',
            bg_width = 1280, bg_height = 720\<rparr>"

definition picked :: app_state where
  "picked = the (run exampleEnv [Mount, Browse, BitrateChange 3] initial)"

definition staleDrag :: app_state where
  "staleDrag = the (run exampleEnv [Mount, Browse, DragStart 1, RemoveClip (js ''a'')] initial)"

definition videoSession :: app_state where
  "videoSession = threeClips\<lparr>exportFormat := mp4, backgroundImage := Some cover\<rparr>"

definition fillSession :: app_state where
  "fillSession = videoSession\<lparr>imageFitMode := fill\<rparr>"

section \<open>The extension check\<close>

lemma lowerUnit_dot: "lowerUnit other 0x2E = [0x2E]"
  by (simp add: lowerUnit_def)

lemma supported_shape:
  "x \<in> set SUPPORTED_EXTENSIONS \<Longrightarrow> \<exists>t. x = 0x2E # t \<and> 0x2E \<notin> set t"
  by (auto simp: SUPPORTED_EXTENSIONS_def js_def)

lemma lowerUnit_nonempty: "lowerUnit other c \<noteq> []"
  by (simp add: lowerUnit_def)

lemma upper_plus_32: "0x41 \<le> c \<Longrightarrow> c \<le> 0x5A \<Longrightarrow> c + 0x20 \<noteq> (0x2E :: 16 word)"
  by unat_arith

lemma lowerUnit_no_dot:
  "\<forall>c. 0x80 \<le> c \<longrightarrow> other c \<noteq> 0x2E \<Longrightarrow> c \<noteq> 0x2E
     \<Longrightarrow> 0x2E \<notin> set (lowerUnit other c)"
  by (auto simp: lowerUnit_def upper_plus_32 not_less)

lemma toLowerCase_no_dot:
  "\<forall>c. 0x80 \<le> c \<longrightarrow> other c \<noteq> 0x2E \<Longrightarrow> 0x2E \<notin> set s
     \<Longrightarrow> 0x2E \<notin> set (toLowerCase other s)"
proof -
  assume tab: "\<forall>c. 0x80 \<le> c \<longrightarrow> other c \<noteq> 0x2E" and s: "0x2E \<notin> set s"
  have "0x2E \<notin> set (lowerUnit other c)" if "c \<in> set s" for c
    using that s lowerUnit_no_dot [OF tab, of c] by blast
  then show ?thesis by (auto simp: toLowerCase_def)
qed

lemma toLowerCase_append:
  "toLowerCase other (xs @ ys) = toLowerCase other xs @ toLowerCase other ys"
  by (simp add: toLowerCase_def)

lemma toLowerCase_dot_Cons:
  "toLowerCase other (0x2E # ys) = 0x2E # toLowerCase other ys"
  by (simp add: toLowerCase_def lowerUnit_dot)

lemma toLowerCase_length: "length s \<le> length (toLowerCase other s)"
proof (induction s)
  case Nil
  show ?case by (simp add: toLowerCase_def)
next
  case (Cons c s)
  have "1 \<le> length (lowerUnit other c)"
    using lowerUnit_nonempty [of other c] by (cases "lowerUnit other c") auto
  then show ?case using Cons by (simp add: toLowerCase_def)
qed

lemma toLowerCase_same_length:
  "0x130 \<notin> set s \<Longrightarrow> length (toLowerCase other s) = length s"
  by (induction s) (auto simp: toLowerCase_def lowerUnit_def)

lemma lastIndexOf_split:
  "c \<notin> set zs \<Longrightarrow> lastIndexOf (ys @ c # zs) c = int (length ys)"
proof -
  assume notin: "c \<notin> set zs"
  have "takeWhile (\<lambda>x. x \<noteq> c) (rev zs @ c # rev ys) = rev zs"
    using notin by (auto simp: takeWhile_tail)
  then show ?thesis by (simp add: lastIndexOf_def)
qed

lemma extensionOf_split:
  "0x2E \<notin> set zs \<Longrightarrow> extensionOf (ys @ 0x2E # zs) = Some (0x2E # zs)"
  by (simp add: extensionOf_def lastIndexOf_split)

text \<open>
  Whatever \<open>isSupportedAudio\<close> accepts has a supported extension, given that no code unit
  beyond ASCII lower-cases to a full stop.
\<close>

lemma isSupportedAudio_imp_spec:
  assumes tab: "\<forall>c. 0x80 \<le> c \<longrightarrow> other c \<noteq> 0x2E"
      and acc: "isSupportedAudio other f"
  shows "spec_isSupportedAudio other f"
proof (cases "0x2E \<in> set f")
  case False
  then have "lastIndexOf f 0x2E = - 1" by (simp add: lastIndexOf_def)
  then have "toLowerCase other f \<in> set SUPPORTED_EXTENSIONS"
    using acc by (simp add: isSupportedAudio_def substring_def)
  then have "0x2E \<in> set (toLowerCase other f)"
    using supported_shape by fastforce
  then show ?thesis using toLowerCase_no_dot [OF tab False] by simp
next
  case True
  then obtain ys zs where f: "f = ys @ 0x2E # zs" and zs: "0x2E \<notin> set zs"
    using split_list_last [of "0x2E" f] by blast
  define d where "d = drop (length ys) (toLowerCase other ys)"
  have low: "toLowerCase other f = toLowerCase other ys @ 0x2E # toLowerCase other zs"
    by (simp add: f toLowerCase_append toLowerCase_dot_Cons)
  have idx: "lastIndexOf f 0x2E = int (length ys)"
    by (simp add: f lastIndexOf_split [OF zs])
  have "substring (toLowerCase other f) (lastIndexOf f 0x2E) = d @ 0x2E # toLowerCase other zs"
    unfolding idx low using toLowerCase_length [of ys other]
    by (simp add: substring_def d_def)
  then have mem: "d @ 0x2E # toLowerCase other zs \<in> set SUPPORTED_EXTENSIONS"
    using acc by (simp add: isSupportedAudio_def)
  then obtain t where t: "d @ 0x2E # toLowerCase other zs = 0x2E # t" "0x2E \<notin> set t"
    using supported_shape by blast
  have "d = []"
  proof (cases d)
    case Nil
    then show ?thesis .
  next
    case (Cons x d')
    then have "0x2E \<in> set t" using t(1) by auto
    then show ?thesis using t(2) by simp
  qed
  then have "toLowerCase other (0x2E # zs) \<in> set SUPPORTED_EXTENSIONS"
    using mem by (simp add: toLowerCase_dot_Cons)
  then show ?thesis
    by (simp add: spec_isSupportedAudio_def f extensionOf_split [OF zs])
qed

text \<open>On a filename without U+0130 the two checks agree.\<close>

lemma spec_imp_isSupportedAudio:
  assumes plain: "0x130 \<notin> set f"
      and acc: "spec_isSupportedAudio other f"
  shows "isSupportedAudio other f"
proof -
  have dot: "0x2E \<in> set f"
    using acc by (auto simp: spec_isSupportedAudio_def extensionOf_def split: if_splits)
  then obtain ys zs where f: "f = ys @ 0x2E # zs" and zs: "0x2E \<notin> set zs"
    using split_list_last [of "0x2E" f] by blast
  have mem: "toLowerCase other (0x2E # zs) \<in> set SUPPORTED_EXTENSIONS"
    using acc by (simp add: spec_isSupportedAudio_def f extensionOf_split [OF zs])
  have len: "length (toLowerCase other ys) = length ys"
    using plain by (simp add: f toLowerCase_same_length)
  have low: "toLowerCase other f = toLowerCase other ys @ 0x2E # toLowerCase other zs"
    by (simp add: f toLowerCase_append toLowerCase_dot_Cons)
  have idx: "lastIndexOf f 0x2E = int (length ys)"
    by (simp add: f lastIndexOf_split [OF zs])
  have "substring (toLowerCase other f) (lastIndexOf f 0x2E) = 0x2E # toLowerCase other zs"
    unfolding idx low using len by (simp add: substring_def)
  then show ?thesis
    using mem by (simp add: isSupportedAudio_def toLowerCase_dot_Cons)
qed

lemma isSupportedAudio_plain:
  "0x130 \<notin> set f \<Longrightarrow> \<forall>c. 0x80 \<le> c \<longrightarrow> other c \<noteq> 0x2E
     \<Longrightarrow> isSupportedAudio other f = spec_isSupportedAudio other f"
  using isSupportedAudio_imp_spec spec_imp_isSupportedAudio by blast

text \<open>
  C10. The claim: for every filename the check accepts exactly when the part from the last
  \<open>'.'\<close> to the end, lower-cased, is in \<open>SUPPORTED_EXTENSIONS\<close>. The filename made of
  U+0130 followed by \<open>.mp3\<close> has the extension \<open>.mp3\<close>, and \<open>isSupportedAudio\<close> rejects it:
  \<open>lastIndexOf\<close> gives 1 in the filename, and the lower-cased copy, one unit longer, holds
  U+0307 at 1, so that \<open>ext\<close> is U+0307 followed by \<open>.mp3\<close>.
\<close>

theorem isSupportedAudio_rejects_dotted_I_mp3:
  "\<not> isSupportedAudio other (0x130 # js ''.mp3'')
     \<and> spec_isSupportedAudio other (0x130 # js ''.mp3'')
     \<and> substring (toLowerCase other (0x130 # js ''.mp3'')) (lastIndexOf (0x130 # js ''.mp3'') 0x2E)
         = 0x307 # js ''.mp3''"
  by (simp add: isSupportedAudio_def spec_isSupportedAudio_def extensionOf_def toLowerCase_def
        lowerUnit_def lastIndexOf_def substring_def SUPPORTED_EXTENSIONS_def js_def)

section \<open>Adding files\<close>

lemma toast_only_refl: "\<exists>t. s = s\<lparr>toast := t\<rparr>"
  by (rule exI [of _ "toast s"]) simp

lemma loop_calls:
  "snd (snd (addAudioFiles_loop e paths (nc, s, cs)))
     = cs @ map Get_audio_info (filter (supportedPath e) paths)"
  by (induction paths arbitrary: nc s cs)
     (auto simp: supportedPath_def Let_def split: outcome.splits)

lemma loop_state:
  "\<exists>t. fst (snd (addAudioFiles_loop e paths (nc, s, cs))) = s\<lparr>toast := t\<rparr>"
proof (induction paths arbitrary: nc s cs)
  case Nil
  show ?case using toast_only_refl by simp
next
  case (Cons p ps)
  have step: "\<exists>t. fst (snd (addAudioFiles_loop e ps (nc', showToast ty m s, cs'))) = s\<lparr>toast := t\<rparr>"
    for nc' ty m cs'
    using Cons.IH [of nc' "showToast ty m s" cs'] by (simp add: showToast_def)
  show ?case
    using step Cons.IH by (simp add: Let_def split: outcome.splits)
qed

lemma loop_clips:
  "\<exists>new. fst (addAudioFiles_loop e paths (nc, s, cs)) = nc @ new
     \<and> map clip_path new = filter (probesValid e) (filter (supportedPath e) paths)"
proof (induction paths arbitrary: nc s cs)
  case Nil
  show ?case by simp
next
  case (Cons p ps)
  show ?case
  proof (cases "supportedPath e p")
    case False
    then show ?thesis using Cons.IH by (simp add: supportedPath_def)
  next
    case True
    show ?thesis
    proof (cases "get_audio_info e p")
      case (Threw err)
      then show ?thesis using True Cons.IH by (simp add: supportedPath_def probesValid_def)
    next
      case (Returned info)
      show ?thesis
      proof (cases "info_valid info")
        case False
        then show ?thesis using True Returned Cons.IH
          by (simp add: supportedPath_def probesValid_def)
      next
        case valid: True
        define c where "c = \<lparr>clip_id = generateId e (length nc), clip_path = p,
                         clip_name = filenameOf p, clip_duration = info_duration info,
                         clip_size = info_size info\<rparr>"
        obtain new where new:
          "fst (addAudioFiles_loop e ps (nc @ [c], s, cs @ [Get_audio_info p])) = (nc @ [c]) @ new"
          "map clip_path new = filter (probesValid e) (filter (supportedPath e) ps)"
          using Cons.IH by blast
        have "fst (addAudioFiles_loop e (p # ps) (nc, s, cs)) = nc @ (c # new)"
          using True Returned valid new(1) by (simp add: supportedPath_def c_def Let_def)
        moreover have "map clip_path (c # new)
                         = filter (probesValid e) (filter (supportedPath e) (p # ps))"
          using True Returned valid new(2) by (simp add: probesValid_def c_def)
        ultimately show ?thesis by blast
      qed
    qed
  qed
qed

lemma probedPaths_probes: "probedPaths (map Get_audio_info ps) = ps"
  by (induction ps) (simp_all add: probedPaths_def)

lemma probedPaths_Nil: "probedPaths [] = []"
  by (simp add: probedPaths_def)

lemma addAudioFiles_probes:
  "probedPaths (snd (addAudioFiles e paths s))
     = (if isInTauri s \<and> getTauriApis e = Returned () then filter (supportedPath e) paths
        else [])"
proof -
  have calls: "snd (snd (addAudioFiles_loop e paths ([], s, [])))
                 = map Get_audio_info (filter (supportedPath e) paths)"
    using loop_calls [of e paths "[]" s "[]"] by simp
  show ?thesis
    using calls
    by (cases "addAudioFiles_loop e paths ([], s, [])")
       (auto simp: addAudioFiles_def probedPaths_probes probedPaths_Nil split: outcome.splits)
qed

lemma addAudioFiles_outside:
  "\<not> (isInTauri s \<and> getTauriApis e = Returned ())
     \<Longrightarrow> clips (fst (addAudioFiles e paths s)) = clips s \<and> snd (addAudioFiles e paths s) = []"
  by (auto simp: addAudioFiles_def showToast_def split: outcome.splits)

lemma addAudioFiles_inside:
  assumes "isInTauri s" "getTauriApis e = Returned ()"
  shows "\<exists>t new. fst (addAudioFiles e paths s) = s\<lparr>clips := clips s @ new, toast := t\<rparr>
           \<and> map clip_path new = filter (probesValid e) (filter (supportedPath e) paths)"
proof -
  obtain nc s1 cs where run: "addAudioFiles_loop e paths ([], s, []) = (nc, s1, cs)"
    by (cases "addAudioFiles_loop e paths ([], s, [])") auto
  obtain t where t: "s1 = s\<lparr>toast := t\<rparr>"
    using loop_state [of e paths "[]" s "[]"] run by auto
  have nc: "map clip_path nc = filter (probesValid e) (filter (supportedPath e) paths)"
    using loop_clips [of e paths "[]" s "[]"] run by auto
  show ?thesis
  proof (cases "nc = []")
    case True
    then have "fst (addAudioFiles e paths s) = s\<lparr>clips := clips s @ nc, toast := t\<rparr>"
      using assms run t by (simp add: addAudioFiles_def)
    then show ?thesis using nc by blast
  next
    case False
    then have "\<exists>t'. fst (addAudioFiles e paths s) = s\<lparr>clips := clips s @ nc, toast := t'\<rparr>"
      using assms run t by (auto simp: addAudioFiles_def showToast_def)
    then show ?thesis using nc by blast
  qed
qed

lemma addAudioFiles_frame:
  "\<exists>t new. fst (addAudioFiles e paths s) = s\<lparr>clips := clips s @ new, toast := t\<rparr>"
proof (cases "isInTauri s \<and> getTauriApis e = Returned ()")
  case True
  then show ?thesis using addAudioFiles_inside [of s e paths] by blast
next
  case False
  have "fst (addAudioFiles e paths s) = s\<lparr>clips := clips s @ [], toast := toast (fst (addAudioFiles e paths s))\<rparr>"
    using False by (auto simp: addAudioFiles_def showToast_def split: outcome.splits)
  then show ?thesis by blast
qed

lemma addAudioFiles_calls:
  "snd (addAudioFiles e paths s)
     = (if isInTauri s \<and> getTauriApis e = Returned ()
        then map Get_audio_info (filter (supportedPath e) paths) else [])"
proof -
  have calls: "snd (snd (addAudioFiles_loop e paths ([], s, [])))
                 = map Get_audio_info (filter (supportedPath e) paths)"
    using loop_calls [of e paths "[]" s "[]"] by simp
  show ?thesis
    using calls
    by (cases "addAudioFiles_loop e paths ([], s, [])")
       (auto simp: addAudioFiles_def split: outcome.splits)
qed

text \<open>
  C3. A path whose filename has no supported extension (the part from its last \<open>'.'\<close>,
  lower-cased, is not in \<open>SUPPORTED_EXTENSIONS\<close>, or there is no \<open>'.'\<close>) is never handed to
  \<open>get_audio_info\<close> by \<open>addAudioFiles\<close>, and no clip with that path is appended.
\<close>

theorem unsupported_never_probed:
  assumes tab: "\<forall>c. 0x80 \<le> c \<longrightarrow> lowerOther e c \<noteq> 0x2E"
      and unsupported: "\<not> spec_isSupportedAudio (lowerOther e) (filenameOf p)"
  shows "Get_audio_info p \<notin> set (snd (addAudioFiles e paths s))
         \<and> (\<exists>new. clips (fst (addAudioFiles e paths s)) = clips s @ new
                  \<and> p \<notin> set (map clip_path new))"
proof -
  have rejected: "\<not> supportedPath e p"
    using isSupportedAudio_imp_spec [OF tab] unsupported by (auto simp: supportedPath_def)
  have no_call: "Get_audio_info p \<notin> set (snd (addAudioFiles e paths s))"
    using rejected by (auto simp: addAudioFiles_calls)
  have no_clip: "\<exists>new. clips (fst (addAudioFiles e paths s)) = clips s @ new
                   \<and> p \<notin> set (map clip_path new)"
  proof (cases "isInTauri s \<and> getTauriApis e = Returned ()")
    case True
    then obtain t new where
      new: "fst (addAudioFiles e paths s) = s\<lparr>clips := clips s @ new, toast := t\<rparr>"
           "map clip_path new = filter (probesValid e) (filter (supportedPath e) paths)"
      using addAudioFiles_inside [of s e paths] by blast
    have "p \<notin> set (map clip_path new)"
      unfolding new(2) using rejected by simp
    moreover have "clips (fst (addAudioFiles e paths s)) = clips s @ new"
      by (simp add: new(1))
    ultimately show ?thesis by blast
  next
    case False
    then have "clips (fst (addAudioFiles e paths s)) = clips s @ []"
      using addAudioFiles_outside [of s e paths] by simp
    then show ?thesis by force
  qed
  show ?thesis using no_call no_clip by blast
qed

theorem unsupported_never_probed_witness:
  "lowerOther exampleEnv = (\<lambda>c. c)
   \<and> \<not> spec_isSupportedAudio (lowerOther exampleEnv) (filenameOf (js ''/music/notes.txt''))
   \<and> js ''/music/notes.txt'' \<in> set examplePaths
   \<and> Get_audio_info (js ''/music/notes.txt'')
        \<notin> set (snd (addAudioFiles exampleEnv examplePaths mounted))
   \<and> (\<exists>new. clips (fst (addAudioFiles exampleEnv examplePaths mounted)) = clips mounted @ new
            \<and> js ''/music/notes.txt'' \<notin> set (map clip_path new))"
proof -
  have tab: "\<forall>c. 0x80 \<le> c \<longrightarrow> lowerOther exampleEnv c \<noteq> 0x2E"
    by (auto simp: exampleEnv_def)
  have unsupported:
    "\<not> spec_isSupportedAudio (lowerOther exampleEnv) (filenameOf (js ''/music/notes.txt''))"
    by (simp add: spec_isSupportedAudio_def extensionOf_def lastIndexOf_def filenameOf_def
          lastSegment_def isSeparator_def orElse_def toLowerCase_def lowerUnit_def
          SUPPORTED_EXTENSIONS_def js_def exampleEnv_def)
  have listed: "js ''/music/notes.txt'' \<in> set examplePaths"
    by (simp add: examplePaths_def)
  have table: "lowerOther exampleEnv = (\<lambda>c. c)"
    by (simp add: exampleEnv_def)
  show ?thesis
    using table unsupported listed
      unsupported_never_probed [OF tab unsupported, of examplePaths mounted]
    by blast
qed

text \<open>
  C4. \<open>addAudioFiles\<close> appends to the end of the session list one clip for each probed path
  whose probe answered valid, in the order of the input, whatever the other probes did (one
  that throws or answers invalid only leaves its path out); and, running inside Tauri, it
  probes every path that passes the extension check, those after a failed probe included.
\<close>

theorem probe_failure_not_fatal:
  "\<exists>new. clips (fst (addAudioFiles e paths s)) = clips s @ new
         \<and> map clip_path new
             = filter (probesValid e) (probedPaths (snd (addAudioFiles e paths s)))
         \<and> (isInTauri s \<and> getTauriApis e = Returned ()
              \<longrightarrow> probedPaths (snd (addAudioFiles e paths s))
                    = filter (supportedPath e) paths)"
proof (cases "isInTauri s \<and> getTauriApis e = Returned ()")
  case True
  then obtain t new where
    new: "fst (addAudioFiles e paths s) = s\<lparr>clips := clips s @ new, toast := t\<rparr>"
         "map clip_path new = filter (probesValid e) (filter (supportedPath e) paths)"
    using addAudioFiles_inside [of s e paths] by blast
  have probed: "probedPaths (snd (addAudioFiles e paths s)) = filter (supportedPath e) paths"
    using True by (simp add: addAudioFiles_probes)
  have "clips (fst (addAudioFiles e paths s)) = clips s @ new"
    by (simp add: new(1))
  then show ?thesis using new(2) probed by auto
next
  case False
  have "clips (fst (addAudioFiles e paths s)) = clips s @ []"
    using False addAudioFiles_outside [of s e paths] by simp
  moreover have "probedPaths (snd (addAudioFiles e paths s)) = []"
    using False by (auto simp: addAudioFiles_probes)
  ultimately have "clips (fst (addAudioFiles e paths s)) = clips s @ []
         \<and> map clip_path []
             = filter (probesValid e) (probedPaths (snd (addAudioFiles e paths s)))
         \<and> (isInTauri s \<and> getTauriApis e = Returned ()
              \<longrightarrow> probedPaths (snd (addAudioFiles e paths s))
                    = filter (supportedPath e) paths)"
    using False by auto
  then show ?thesis by (rule exI)
qed

theorem probe_failure_not_fatal_witness:
  "isInTauri mounted \<and> getTauriApis exampleEnv = Returned ()
   \<and> \<not> probesValid exampleEnv (js ''/music/broken.mp3'')
   \<and> \<not> probesValid exampleEnv (js ''/music/gone.wav'')
   \<and> probedPaths (snd (addAudioFiles exampleEnv examplePaths mounted))
       = [js ''/music/intro.mp3'', js ''/music/broken.mp3'', js ''/music/gone.wav'',
          js ''/music/OUTRO.MP3'']
   \<and> (\<exists>new. clips (fst (addAudioFiles exampleEnv examplePaths mounted)) = clips mounted @ new
            \<and> map clip_path new = [js ''/music/intro.mp3'', js ''/music/OUTRO.MP3''])"
proof -
  have inside: "isInTauri mounted \<and> getTauriApis exampleEnv = Returned ()"
    by (simp add: mounted_def exampleEnv_def)
  have supported: "filter (supportedPath exampleEnv) examplePaths
      = [js ''/music/intro.mp3'', js ''/music/broken.mp3'', js ''/music/gone.wav'',
          js ''/music/OUTRO.MP3'']"
    by (simp add: supportedPath_def examplePaths_def exampleEnv_def isSupportedAudio_def
          toLowerCase_def lowerUnit_def lastIndexOf_def substring_def filenameOf_def
          lastSegment_def isSeparator_def orElse_def SUPPORTED_EXTENSIONS_def js_def Let_def)
  have valid: "filter (probesValid exampleEnv)
        [js ''/music/intro.mp3'', js ''/music/broken.mp3'', js ''/music/gone.wav'',
          js ''/music/OUTRO.MP3'']
      = [js ''/music/intro.mp3'', js ''/music/OUTRO.MP3'']"
    by (simp add: probesValid_def exampleEnv_def js_def)
  have broken: "\<not> probesValid exampleEnv (js ''/music/broken.mp3'')"
               "\<not> probesValid exampleEnv (js ''/music/gone.wav'')"
    by (simp_all add: probesValid_def exampleEnv_def js_def)
  show ?thesis
    using inside broken supported valid
      probe_failure_not_fatal [of exampleEnv examplePaths mounted]
    by auto
qed

section \<open>Reordering\<close>

text \<open>
  C9. \<open>moveClip\<close> at the first position with \<open>up\<close>, or at the last with \<open>down\<close>, leaves the
  state as it is. At any other position of the list it stores a list of the same length and
  the same elements in which the clips at the index and at its neighbour in the given
  direction have changed places and every other position holds what it held; nothing else
  in the state changes.
\<close>

theorem moveClip_swaps_adjacent:
  assumes valid: "0 \<le> index" "index < int (length (clips s))"
  shows "((index = 0 \<and> dir = up) \<or> (index = int (length (clips s)) - 1 \<and> dir = down)
            \<longrightarrow> moveClip index dir s = Some s)
       \<and> (\<not> ((index = 0 \<and> dir = up) \<or> (index = int (length (clips s)) - 1 \<and> dir = down))
            \<longrightarrow> (\<exists>newClips.
                  moveClip index dir s = Some (s\<lparr>clips := newClips\<rparr>)
                  \<and> length newClips = length (clips s)
                  \<and> mset newClips = mset (clips s)
                  \<and> (let i = nat index; j = (if dir = up then i - 1 else i + 1)
                     in j < length (clips s)
                        \<and> newClips ! i = clips s ! j
                        \<and> newClips ! j = clips s ! i
                        \<and> (\<forall>k < length (clips s). k \<noteq> i \<and> k \<noteq> j
                              \<longrightarrow> newClips ! k = clips s ! k))))"
proof (intro conjI impI)
  assume "(index = 0 \<and> dir = up) \<or> (index = int (length (clips s)) - 1 \<and> dir = down)"
  then show "moveClip index dir s = Some s"
    by (auto simp: moveClip_def)
next
  assume inner: "\<not> ((index = 0 \<and> dir = up) \<or> (index = int (length (clips s)) - 1 \<and> dir = down))"
  define i where "i = nat index"
  define j where "j = (if dir = up then i - 1 else i + 1)"
  define newIndex where "newIndex = (if dir = up then index - 1 else index + 1)"
  have i: "i < length (clips s)" "index = int i"
    using valid by (auto simp: i_def)
  have j: "j < length (clips s)" "newIndex = int j" "j \<noteq> i"
    using valid inner i by (cases dir; auto simp: j_def newIndex_def)+
  define newClips where "newClips = (clips s)[i := clips s ! j, j := clips s ! i]"
  have run: "moveClip index dir s = Some (s\<lparr>clips := newClips\<rparr>)"
    using i j unfolding moveClip_def newClips_def newIndex_def [symmetric] Let_def
    by (simp add: newIndex_def)
  have len: "length newClips = length (clips s)"
    by (simp add: newClips_def)
  have perm: "mset newClips = mset (clips s)"
    unfolding newClips_def using i(1) j(1) by (simp add: mset_swap)
  have at_i: "newClips ! i = clips s ! j"
    using i(1) j by (simp add: newClips_def nth_list_update)
  have at_j: "newClips ! j = clips s ! i"
    using j(1) by (simp add: newClips_def)
  have rest: "\<forall>k < length (clips s). k \<noteq> i \<and> k \<noteq> j \<longrightarrow> newClips ! k = clips s ! k"
    by (simp add: newClips_def)
  show "\<exists>newClips.
          moveClip index dir s = Some (s\<lparr>clips := newClips\<rparr>)
          \<and> length newClips = length (clips s)
          \<and> mset newClips = mset (clips s)
          \<and> (let i = nat index; j = (if dir = up then i - 1 else i + 1)
             in j < length (clips s)
                \<and> newClips ! i = clips s ! j
                \<and> newClips ! j = clips s ! i
                \<and> (\<forall>k < length (clips s). k \<noteq> i \<and> k \<noteq> j
                      \<longrightarrow> newClips ! k = clips s ! k))"
    using run len perm at_i at_j rest j(1)
    unfolding Let_def i_def [symmetric] j_def [symmetric] by blast
qed

theorem moveClip_swaps_adjacent_witness:
  "(0::int) \<le> 0 \<and> (0::int) < int (length (clips threeClips))
   \<and> moveClip 0 up threeClips = Some threeClips
   \<and> (0::int) \<le> 2 \<and> (2::int) < int (length (clips threeClips))
   \<and> moveClip 2 down threeClips = Some threeClips
   \<and> (0::int) \<le> 1 \<and> (1::int) < int (length (clips threeClips))
   \<and> moveClip 1 up threeClips = Some (threeClips\<lparr>clips := [clipB, clipA, clipC]\<rparr>)"
proof -
  have len: "length (clips threeClips) = 3" "clips threeClips = [clipA, clipB, clipC]"
    by (simp_all add: threeClips_def mounted_def)
  have v0: "(0::int) \<le> 0" "(0::int) < int (length (clips threeClips))"
   and v1: "(0::int) \<le> 1" "(1::int) < int (length (clips threeClips))"
   and v2: "(0::int) \<le> 2" "(2::int) < int (length (clips threeClips))"
    by (simp_all add: len)
  have first: "moveClip 0 up threeClips = Some threeClips"
    using moveClip_swaps_adjacent [OF v0, of up] by simp
  have last: "moveClip 2 down threeClips = Some threeClips"
    using moveClip_swaps_adjacent [OF v2, of down] by (simp add: len)
  obtain n1 where n1: "moveClip 1 up threeClips = Some (threeClips\<lparr>clips := n1\<rparr>)"
      "length n1 = 3" "n1 ! 1 = clipA" "n1 ! 0 = clipB" "n1 ! 2 = clipC"
    using moveClip_swaps_adjacent [OF v1, of up] by (auto simp: len Let_def)
  have "n1 = [clipB, clipA, clipC]"
    using n1(2-) by (intro nth_equalityI) (auto simp: less_Suc_eq numeral_3_eq_3 numeral_2_eq_2)
  then show ?thesis
    using v0 v1 v2 first last n1(1) by simp
qed

section \<open>Export\<close>

text \<open>
  C2. With an empty clip list \<open>handleExport\<close> makes no external call at all (no save dialog,
  no stitch command): it shows an error toast and leaves every other part of the state as
  it was.
\<close>

theorem export_empty_rejected:
  "clips s = [] \<Longrightarrow> \<exists>m. handleExport e s = (s\<lparr>toast := Some (ToastError, m)\<rparr>, [])"
  by (cases "isInTauri s") (auto simp: handleExport_def showToast_def)

theorem export_empty_rejected_witness:
  "clips mounted = []
   \<and> (\<exists>m. handleExport exampleEnv mounted = (mounted\<lparr>toast := Some (ToastError, m)\<rparr>, []))"
proof -
  have empty: "clips mounted = []"
    by (simp add: mounted_def initial_def)
  show ?thesis
    using empty export_empty_rejected [OF empty, of exampleEnv] by simp
qed

text \<open>
  C1. Every stitch command that \<open>handleExport\<close> issues is handed the session's clip list
  itself, element for element in its current order; and an export that gets as far as a
  chosen output path issues exactly one stitch command.
\<close>

theorem export_hands_session_list:
  "(\<forall>c \<in> set (snd (handleExport e s)). \<forall>cl. clipsHanded c = Some cl \<longrightarrow> cl = clips s)
   \<and> (isInTauri s \<and> clips s \<noteq> [] \<and> getTauriApis e = Returned ()
        \<and> save_dialog e = Returned (Some out) \<and> out \<noteq> []
       \<longrightarrow> List.map_filter clipsHanded (snd (handleExport e s)) = [clips s])"
proof (intro conjI impI)
  show "\<forall>c \<in> set (snd (handleExport e s)). \<forall>cl. clipsHanded c = Some cl \<longrightarrow> cl = clips s"
    by (auto simp: handleExport_def Let_def split: outcome.splits option.splits)
next
  assume "isInTauri s \<and> clips s \<noteq> [] \<and> getTauriApis e = Returned ()
            \<and> save_dialog e = Returned (Some out) \<and> out \<noteq> []"
  then show "List.map_filter clipsHanded (snd (handleExport e s)) = [clips s]"
    by (simp add: handleExport_def Let_def)
qed

theorem export_hands_session_list_witness:
  "isInTauri threeClips \<and> clips threeClips \<noteq> [] \<and> getTauriApis exampleEnv = Returned ()
   \<and> save_dialog exampleEnv = Returned (Some (js ''/out/mix'')) \<and> js ''/out/mix'' \<noteq> []
   \<and> List.map_filter clipsHanded (snd (handleExport exampleEnv threeClips))
       = [[clipA, clipB, clipC]]
   \<and> Stitch_audio [clipA, clipB, clipC] (js ''/out/mix'') (js ''256k'')
        \<in> set (snd (handleExport exampleEnv threeClips))"
proof -
  have run: "isInTauri threeClips \<and> clips threeClips \<noteq> [] \<and> getTauriApis exampleEnv = Returned ()
     \<and> save_dialog exampleEnv = Returned (Some (js ''/out/mix'')) \<and> js ''/out/mix'' \<noteq> []"
    by (simp add: threeClips_def mounted_def initial_def exampleEnv_def js_def)
  have cl: "clips threeClips = [clipA, clipB, clipC]"
    by (simp add: threeClips_def mounted_def)
  have call: "Stitch_audio [clipA, clipB, clipC] (js ''/out/mix'') (js ''256k'')
        \<in> set (snd (handleExport exampleEnv threeClips))"
    by (simp add: handleExport_def Let_def threeClips_def mounted_def initial_def exampleEnv_def
          js_def)
  show ?thesis
    using run cl call export_hands_session_list [of exampleEnv threeClips "js ''/out/mix''"]
    by simp
qed

section \<open>The background image\<close>

text \<open>
  C8. The session holds its background image in one cell, which is empty or holds one
  image. \<open>handleSelectImage\<close> either leaves the cell as it is or, when the chosen file
  probes valid, stores the new image there, whatever the cell held; \<open>handleRemoveImage\<close>
  leaves the cell empty.
\<close>

theorem one_background_image:
  "(backgroundImage (fst (handleSelectImage e s)) = backgroundImage s
     \<or> (\<exists>p info. open_dialog e = Returned (One p) \<and> get_image_info e p = Returned info
           \<and> img_valid info
           \<and> backgroundImage (fst (handleSelectImage e s))
               = Some \<lparr>bg_path = p, bg_name = filenameOf p, bg_width = img_width info,
                       bg_height = img_height info\<rparr>))
   \<and> (isInTauri s \<and> getTauriApis e = Returned () \<and> open_dialog e = Returned (One p) \<and> p \<noteq> []
        \<and> substring (toLowerCase (lowerOther e) (filenameOf p)) (lastIndexOf (filenameOf p) 0x2E)
             \<in> set SUPPORTED_IMAGE_EXTENSIONS
        \<and> get_image_info e p = Returned info \<and> img_valid info
       \<longrightarrow> backgroundImage (fst (handleSelectImage e s))
             = Some \<lparr>bg_path = p, bg_name = filenameOf p, bg_width = img_width info,
                     bg_height = img_height info\<rparr>)
   \<and> backgroundImage (handleRemoveImage s) = None"
proof (intro conjI impI)
  show "backgroundImage (fst (handleSelectImage e s)) = backgroundImage s
     \<or> (\<exists>p info. open_dialog e = Returned (One p) \<and> get_image_info e p = Returned info
           \<and> img_valid info
           \<and> backgroundImage (fst (handleSelectImage e s))
               = Some \<lparr>bg_path = p, bg_name = filenameOf p, bg_width = img_width info,
                       bg_height = img_height info\<rparr>)"
    by (auto simp: handleSelectImage_def showToast_def Let_def
             split: outcome.splits selection.splits)
next
  assume "isInTauri s \<and> getTauriApis e = Returned () \<and> open_dialog e = Returned (One p) \<and> p \<noteq> []
        \<and> substring (toLowerCase (lowerOther e) (filenameOf p)) (lastIndexOf (filenameOf p) 0x2E)
             \<in> set SUPPORTED_IMAGE_EXTENSIONS
        \<and> get_image_info e p = Returned info \<and> img_valid info"
  then show "backgroundImage (fst (handleSelectImage e s))
             = Some \<lparr>bg_path = p, bg_name = filenameOf p, bg_width = img_width info,
                     bg_height = img_height info\<rparr>"
    by (simp add: handleSelectImage_def showToast_def Let_def)
next
  show "backgroundImage (handleRemoveImage s) = None"
    by (simp add: handleRemoveImage_def)
qed

theorem one_background_image_witness:
  "isInTauri videoSession \<and> getTauriApis imageEnv = Returned ()
   \<and> open_dialog imageEnv = Returned (One (js ''/art/logo.JPG'')) \<and> js ''/art/logo.JPG'' \<noteq> []
   \<and> substring (toLowerCase (lowerOther imageEnv) (filenameOf (js ''/art/logo.JPG'')))
         (lastIndexOf (filenameOf (js ''/art/logo.JPG'')) 0x2E) \<in> set SUPPORTED_IMAGE_EXTENSIONS
   \<and> get_image_info imageEnv (js ''/art/logo.JPG'')
       = Returned \<lparr>img_width = 1280, img_height = 720, img_valid = True, img_error = None\<rparr>
   \<and> backgroundImage videoSession = Some cover
   \<and> backgroundImage (fst (handleSelectImage imageEnv videoSession))
       = Some \<lparr>bg_path = js ''/art/logo.JPG'', bg_name = js ''logo.JPG'', bg_width = 1280,
               bg_height = 720\<rparr>
   \<and> backgroundImage (handleRemoveImage videoSession) = None"
proof -
  have name: "filenameOf (js ''/art/logo.JPG'') = js ''logo.JPG''"
    by (simp add: filenameOf_def lastSegment_def isSeparator_def orElse_def js_def)
  have ext: "substring (toLowerCase (lowerOther imageEnv) (js ''logo.JPG''))
               (lastIndexOf (js ''logo.JPG'') 0x2E) \<in> set SUPPORTED_IMAGE_EXTENSIONS"
    by (simp add: substring_def toLowerCase_def lowerUnit_def lastIndexOf_def
          SUPPORTED_IMAGE_EXTENSIONS_def js_def)
  have run: "isInTauri videoSession \<and> getTauriApis imageEnv = Returned ()
      \<and> open_dialog imageEnv = Returned (One (js ''/art/logo.JPG'')) \<and> js ''/art/logo.JPG'' \<noteq> []
      \<and> get_image_info imageEnv (js ''/art/logo.JPG'')
          = Returned \<lparr>img_width = 1280, img_height = 720, img_valid = True, img_error = None\<rparr>"
    by (simp add: videoSession_def threeClips_def mounted_def imageEnv_def exampleEnv_def js_def)
  have held: "backgroundImage videoSession = Some cover"
    by (simp add: videoSession_def)
  show ?thesis
    using name ext run held
      one_background_image [of imageEnv videoSession "js ''/art/logo.JPG''"
        "\<lparr>img_width = 1280, img_height = 720, img_valid = True, img_error = None\<rparr>"]
    by simp
qed

section \<open>The video filter chain\<close>

text \<open>
  C6. A video export with a background image issues \<open>stitch_video\<close> with the image's path
  and the session's fit mode, and the command built from these arguments has a filter
  chain that, for \<open>fit\<close>, scales keeping the aspect ratio and pads and does not crop, and
  for \<open>fill\<close> scales keeping the aspect ratio and crops and does not pad.
\<close>

theorem video_filter_chain:
  assumes run: "isInTauri s \<and> clips s \<noteq> [] \<and> getTauriApis e = Returned ()
                  \<and> save_dialog e = Returned (Some out) \<and> out \<noteq> []"
      and video: "exportFormat s = mp4"
      and image: "backgroundImage s = Some img \<and> bg_path img \<noteq> []"
  shows "\<exists>vc args.
           Stitch_video (clips s) out (bitrate s) vc \<in> set (snd (handleExport e s))
           \<and> image_path vc = Some (bg_path img)
           \<and> fit_mode vc = imageFitMode s
           \<and> buildVideoCommand (clips s) out (bitrate s) vc = Some args
           \<and> list_ex isScale (filtersOf args)
           \<and> (imageFitMode s = fit
                \<longrightarrow> list_ex isPad (filtersOf args) \<and> \<not> list_ex isCrop (filtersOf args))
           \<and> (imageFitMode s = fill
                \<longrightarrow> list_ex isCrop (filtersOf args) \<and> \<not> list_ex isPad (filtersOf args))"
proof -
  define vc where "vc = \<lparr>image_path = Some (bg_path img), fit_mode = imageFitMode s\<rparr>"
  define chain where "chain = (case imageFitMode s of
      fit \<Rightarrow> [ScaleKeepAspect 1920 1080, Pad 1920 1080]
    | fill \<Rightarrow> [ScaleKeepAspect 1920 1080, Crop 1920 1080])"
  define args where "args = [LoopImage (bg_path img), ConcatList (map clip_path (clips s)),
      FilterChain chain, AudioBitrate (bitrate s), Output out]"
  have call: "Stitch_video (clips s) out (bitrate s) vc \<in> set (snd (handleExport e s))"
    using run video image by (simp add: handleExport_def Let_def vc_def)
  have built: "buildVideoCommand (clips s) out (bitrate s) vc = Some args"
    using run by (simp add: buildVideoCommand_def vc_def args_def chain_def)
  have filters: "filtersOf args = chain"
    by (simp add: filtersOf_def args_def)
  have scale: "list_ex isScale (filtersOf args)"
    unfolding filters chain_def by (cases "imageFitMode s") simp_all
  have letterbox: "imageFitMode s = fit
      \<longrightarrow> list_ex isPad (filtersOf args) \<and> \<not> list_ex isCrop (filtersOf args)"
    unfolding filters chain_def by simp
  have crop: "imageFitMode s = fill
      \<longrightarrow> list_ex isCrop (filtersOf args) \<and> \<not> list_ex isPad (filtersOf args)"
    unfolding filters chain_def by simp
  have "image_path vc = Some (bg_path img)" "fit_mode vc = imageFitMode s"
    by (simp_all add: vc_def)
  then show ?thesis using call built scale letterbox crop by blast
qed

theorem video_filter_chain_witness:
  "(isInTauri videoSession \<and> clips videoSession \<noteq> [] \<and> getTauriApis exampleEnv = Returned ()
      \<and> save_dialog exampleEnv = Returned (Some (js ''/out/mix'')) \<and> js ''/out/mix'' \<noteq> [])
   \<and> exportFormat videoSession = mp4
   \<and> (backgroundImage videoSession = Some cover \<and> bg_path cover \<noteq> [])
   \<and> bg_width cover < 1920 \<and> bg_height cover < 1080
   \<and> imageFitMode videoSession = fit
   \<and> (\<exists>vc args.
         Stitch_video (clips videoSession) (js ''/out/mix'') (bitrate videoSession) vc
           \<in> set (snd (handleExport exampleEnv videoSession))
         \<and> buildVideoCommand (clips videoSession) (js ''/out/mix'') (bitrate videoSession) vc
             = Some args
         \<and> list_ex isScale (filtersOf args) \<and> list_ex isPad (filtersOf args)
         \<and> \<not> list_ex isCrop (filtersOf args))
   \<and> (isInTauri fillSession \<and> clips fillSession \<noteq> [] \<and> getTauriApis exampleEnv = Returned ()
      \<and> save_dialog exampleEnv = Returned (Some (js ''/out/mix'')) \<and> js ''/out/mix'' \<noteq> [])
   \<and> exportFormat fillSession = mp4
   \<and> (backgroundImage fillSession = Some cover \<and> bg_path cover \<noteq> [])
   \<and> imageFitMode fillSession = fill
   \<and> (\<exists>vc args.
         Stitch_video (clips fillSession) (js ''/out/mix'') (bitrate fillSession) vc
           \<in> set (snd (handleExport exampleEnv fillSession))
         \<and> buildVideoCommand (clips fillSession) (js ''/out/mix'') (bitrate fillSession) vc
             = Some args
         \<and> list_ex isScale (filtersOf args) \<and> list_ex isCrop (filtersOf args)
         \<and> \<not> list_ex isPad (filtersOf args))"
proof -
  have run1: "isInTauri videoSession \<and> clips videoSession \<noteq> []
      \<and> getTauriApis exampleEnv = Returned ()
      \<and> save_dialog exampleEnv = Returned (Some (js ''/out/mix'')) \<and> js ''/out/mix'' \<noteq> []"
    by (simp add: videoSession_def threeClips_def mounted_def initial_def exampleEnv_def js_def)
  have video1: "exportFormat videoSession = mp4"
    by (simp add: videoSession_def)
  have image1: "backgroundImage videoSession = Some cover \<and> bg_path cover \<noteq> []"
    by (simp add: videoSession_def cover_def js_def)
  have small: "bg_width cover < 1920 \<and> bg_height cover < 1080"
    by (simp add: cover_def)
  have mode1: "imageFitMode videoSession = fit"
    by (simp add: videoSession_def threeClips_def mounted_def initial_def)
  have run2: "isInTauri fillSession \<and> clips fillSession \<noteq> []
      \<and> getTauriApis exampleEnv = Returned ()
      \<and> save_dialog exampleEnv = Returned (Some (js ''/out/mix'')) \<and> js ''/out/mix'' \<noteq> []"
    using run1 by (simp add: fillSession_def)
  have video2: "exportFormat fillSession = mp4"
    by (simp add: fillSession_def videoSession_def)
  have image2: "backgroundImage fillSession = Some cover \<and> bg_path cover \<noteq> []"
    using image1 by (simp add: fillSession_def)
  have mode2: "imageFitMode fillSession = fill"
    by (simp add: fillSession_def)
  have fit_case: "\<exists>vc args.
         Stitch_video (clips videoSession) (js ''/out/mix'') (bitrate videoSession) vc
           \<in> set (snd (handleExport exampleEnv videoSession))
         \<and> buildVideoCommand (clips videoSession) (js ''/out/mix'') (bitrate videoSession) vc
             = Some args
         \<and> list_ex isScale (filtersOf args) \<and> list_ex isPad (filtersOf args)
         \<and> \<not> list_ex isCrop (filtersOf args)"
    using video_filter_chain [OF run1 video1 image1] mode1 by blast
  have fill_case: "\<exists>vc args.
         Stitch_video (clips fillSession) (js ''/out/mix'') (bitrate fillSession) vc
           \<in> set (snd (handleExport exampleEnv fillSession))
         \<and> buildVideoCommand (clips fillSession) (js ''/out/mix'') (bitrate fillSession) vc
             = Some args
         \<and> list_ex isScale (filtersOf args) \<and> list_ex isCrop (filtersOf args)
         \<and> \<not> list_ex isPad (filtersOf args)"
    using video_filter_chain [OF run2 video2 image2] mode2 by blast
  show ?thesis
    using run1 video1 image1 small mode1 run2 video2 image2 mode2 fit_case fill_case
    by blast
qed



section \<open>What each handler leaves alone\<close>

lemma addAudioFiles_clips: "\<exists>new. clips (fst (addAudioFiles e paths s)) = clips s @ new"
proof -
  obtain t new where "fst (addAudioFiles e paths s) = s\<lparr>clips := clips s @ new, toast := t\<rparr>"
    using addAudioFiles_frame by blast
  then have "clips (fst (addAudioFiles e paths s)) = clips s @ new" by simp
  then show ?thesis by blast
qed

lemma addAudioFiles_bitrate: "bitrate (fst (addAudioFiles e paths s)) = bitrate s"
proof -
  obtain t new where "fst (addAudioFiles e paths s) = s\<lparr>clips := clips s @ new, toast := t\<rparr>"
    using addAudioFiles_frame by blast
  then show ?thesis by simp
qed

lemma handleBrowse_clips: "\<exists>new. clips (fst (handleBrowse e s)) = clips s @ new"
  using addAudioFiles_clips [of e _ s]
  by (auto simp: handleBrowse_def showToast_def split_beta
           split: outcome.splits selection.splits)

lemma handleBrowse_bitrate: "bitrate (fst (handleBrowse e s)) = bitrate s"
  by (auto simp: handleBrowse_def showToast_def split_beta addAudioFiles_bitrate
           split: outcome.splits selection.splits)

lemma handleDrop_clips: "\<exists>new. clips (fst (handleDrop e files s)) = clips s @ new"
  using addAudioFiles_clips [of e _ "s\<lparr>isDragging := False\<rparr>"]
  by (auto simp: handleDrop_def showToast_def Let_def)

lemma handleDrop_bitrate: "bitrate (fst (handleDrop e files s)) = bitrate s"
  by (auto simp: handleDrop_def showToast_def Let_def addAudioFiles_bitrate)

lemma fileInputChange_clips: "\<exists>new. clips (fst (fileInputChange e files s)) = clips s @ new"
  using addAudioFiles_clips [of e _ s]
  by (auto simp: fileInputChange_def Let_def)

lemma fileInputChange_bitrate: "bitrate (fst (fileInputChange e files s)) = bitrate s"
  by (auto simp: fileInputChange_def Let_def addAudioFiles_bitrate)

lemma mount_keeps:
  "clips (fst (mount e s)) = clips s \<and> bitrate (fst (mount e s)) = bitrate s"
  by (auto simp: mount_def Let_def split: outcome.splits)

lemma handleSelectImage_keeps:
  "clips (fst (handleSelectImage e s)) = clips s
     \<and> bitrate (fst (handleSelectImage e s)) = bitrate s"
  by (auto simp: handleSelectImage_def showToast_def Let_def
           split: outcome.splits selection.splits)

lemma handleExport_keeps:
  "clips (fst (handleExport e s)) = clips s \<and> bitrate (fst (handleExport e s)) = bitrate s"
  by (auto simp: handleExport_def finishExport_def showToast_def Let_def
           split: outcome.splits option.splits)

lemma moveClip_keeps:
  assumes "moveClip index dir s = Some s'"
  shows "mset (clips s') = mset (clips s) \<and> bitrate s' = bitrate s"
proof (cases "0 \<le> index \<and> index < int (length (clips s))
              \<and> 0 \<le> (if dir = up then index - 1 else index + 1)
              \<and> (if dir = up then index - 1 else index + 1) < int (length (clips s))")
  case True
  then have "s' = s\<lparr>clips := (clips s)[nat index := clips s ! nat (if dir = up then index - 1 else index + 1),
                   nat (if dir = up then index - 1 else index + 1) := clips s ! nat index]\<rparr>"
    using assms by (auto simp: moveClip_def Let_def)
  moreover have "nat index < length (clips s)"
      "nat (if dir = up then index - 1 else index + 1) < length (clips s)"
    using True by auto
  ultimately show ?thesis by (simp add: mset_swap)
next
  case False
  then have "s' = s"
    using assms by (auto simp: moveClip_def Let_def split: if_splits)
  then show ?thesis by simp
qed

lemma handleDragOverItem_keeps:
  assumes "handleDragOverItem index s = Inr s'"
  shows "mset (clips s') = mset (clips s) \<and> bitrate s' = bitrate s"
proof (cases "draggedIndex s")
  case None
  then show ?thesis using assms by (simp add: handleDragOverItem_def)
next
  case (Some d)
  show ?thesis
  proof (cases "d = index")
    case True
    then show ?thesis using assms Some by (simp add: handleDragOverItem_def)
  next
    case False
    then have d: "d < length (clips s)"
      using assms Some by (auto simp: handleDragOverItem_def split: if_splits)
    define without where "without = take d (clips s) @ drop (Suc d) (clips s)"
    have s': "s' = s\<lparr>clips := take index without @ [clips s ! d] @ drop index without,
                     draggedIndex := Some index\<rparr>"
      using assms Some False d by (auto simp: handleDragOverItem_def Let_def without_def)
    have "mset (take index without @ [clips s ! d] @ drop index without)
            = mset without + {#clips s ! d#}"
      by (metis append_take_drop_id mset.simps(2) mset_append add_mset_add_single
                union_mset_add_mset_right append_Cons append_Nil)
    also have "\<dots> = mset (take d (clips s) @ clips s ! d # drop (Suc d) (clips s))"
      by (simp add: without_def)
    also have "\<dots> = mset (clips s)"
      using d by (simp only: id_take_nth_drop [symmetric])
    finally show ?thesis by (simp add: s')
  qed
qed

text \<open>Arrays with \<open>undefined\<close> entries.\<close>

lemma definedEntries_Some: "definedEntries (map Some xs) = xs"
  by (induction xs) (simp_all add: definedEntries_def)

lemma definedEntries_append:
  "definedEntries (a @ b) = definedEntries a @ definedEntries b"
  by (simp add: definedEntries_def)

lemma definedEntries_None: "definedEntries (None # a) = definedEntries a"
  by (simp add: definedEntries_def)

lemma count_Some: "count (mset (map Some xs)) (Some c) = count (mset xs) c"
  by (induction xs) simp_all

lemma undefined_inserted:
  "definedEntries (take i (map Some xs) @ [None] @ drop i (map Some xs)) = xs
   \<and> count (mset (take i (map Some xs) @ [None] @ drop i (map Some xs))) (Some c)
       = count (mset xs) c"
proof -
  have "definedEntries (take i (map Some xs) @ [None] @ drop i (map Some xs))
          = definedEntries (map Some (take i xs)) @ definedEntries (map Some (drop i xs))"
    by (simp add: definedEntries_append definedEntries_None take_map drop_map)
  then have entries: "definedEntries (take i (map Some xs) @ [None] @ drop i (map Some xs)) = xs"
    by (simp add: definedEntries_Some)
  have skip: "count (mset (a @ [None] @ b)) (Some c) = count (mset (a @ b)) (Some c)"
    for a b :: "'a option list"
    by simp
  have "count (mset (take i (map Some xs) @ [None] @ drop i (map Some xs))) (Some c)
          = count (mset (take i (map Some xs) @ drop i (map Some xs))) (Some c)"
    by (rule skip)
  then have "count (mset (take i (map Some xs) @ [None] @ drop i (map Some xs))) (Some c)
          = count (mset (map Some xs)) (Some c)"
    by (simp only: append_take_drop_id)
  then have "count (mset (take i (map Some xs) @ [None] @ drop i (map Some xs))) (Some c)
          = count (mset xs) c"
    by (simp only: count_Some)
  with entries show ?thesis by blast
qed

lemma handleDragOverItem_crash:
  assumes "handleDragOverItem index s = Inl c"
  shows "\<exists>rest. c = RenderThrows
           (take index (map Some (clips s)) @ [None] @ drop index (map Some (clips s))) rest"
  using assms
  by (auto simp: handleDragOverItem_def Let_def split: option.splits if_splits)

text \<open>
  \<open>moveClip\<close> and \<open>moveClipArray\<close> are one handler: where \<open>moveClip\<close> has a next state, its
  list is the array of \<open>moveClipArray\<close>; where it has none, the index is the length of the
  list, the direction is \<open>up\<close>, and the array stored is the list with its last clip moved
  one place beyond the end and \<open>undefined\<close> in its place.
\<close>

lemma moveClip_array_agrees:
  assumes "moveClip index dir s = Some s'"
  shows "moveClipArray index dir (map Some (clips s)) = map Some (clips s')"
proof (cases "0 \<le> index \<and> index < int (length (clips s))
              \<and> 0 \<le> (if dir = up then index - 1 else index + 1)
              \<and> (if dir = up then index - 1 else index + 1) < int (length (clips s))")
  case True
  define j where "j = (if dir = up then index - 1 else index + 1)"
  have s': "s' = s\<lparr>clips := (clips s)[nat index := clips s ! nat j, nat j := clips s ! nat index]\<rparr>"
    using assms True by (auto simp: moveClip_def Let_def j_def)
  have bounds: "nat index < length (clips s)" "nat j < length (clips s)" "0 \<le> index" "0 \<le> j"
      "index < int (length (clips s))" "j < int (length (clips s))"
    using True by (auto simp: j_def)
  have "moveClipArray index dir (map Some (clips s))
          = (map Some (clips s))[nat index := Some (clips s ! nat j),
                                 nat j := Some (clips s ! nat index)]"
    using bounds unfolding moveClipArray_def j_def [symmetric] Let_def
    by (simp add: assignAt_def elementAt_def)
  also have "\<dots> = map Some ((clips s)[nat index := clips s ! nat j, nat j := clips s ! nat index])"
    by (simp add: map_update)
  finally show ?thesis by (simp add: s')
next
  case False
  then have "s' = s"
    using assms by (auto simp: moveClip_def Let_def split: if_splits)
  moreover have "moveClipArray index dir (map Some (clips s)) = map Some (clips s)"
    using assms False by (auto simp: moveClip_def moveClipArray_def Let_def split: if_splits)
  ultimately show ?thesis by simp
qed

lemma moveClip_beyond:
  assumes "moveClip (int index) dir s = None"
  shows "clips s \<noteq> [] \<and> moveClipArray (int index) dir (map Some (clips s))
           = map Some (butlast (clips s)) @ [None, Some (last (clips s))]"
proof -
  have at: "index = length (clips s)" "dir = up" "clips s \<noteq> []"
    using assms by (cases dir; auto simp: moveClip_def Let_def split: if_splits)+
  define n where "n = length (clips s) - 1"
  have n: "length (clips s) = Suc n"
    using at(3) by (cases "clips s") (auto simp: n_def)
  have split: "clips s = butlast (clips s) @ [last (clips s)]"
    using at(3) by simp
  have len: "length (butlast (clips s)) = n"
    by (simp add: n)
  have last_nth: "clips s ! n = last (clips s)"
    using at(3) n by (simp add: last_conv_nth)
  have "moveClipArray (int index) dir (map Some (clips s))
          = (map Some (clips s) @ [Some (clips s ! n)])[n := None]"
    unfolding moveClipArray_def Let_def at(1) at(2)
    by (simp add: assignAt_def elementAt_def n)
  also have "\<dots> = (map Some (butlast (clips s)) @ [Some (last (clips s)), Some (last (clips s))])
                     [n := None]"
    using split last_nth by (metis append.assoc append_Cons append_Nil list.simps(8,9) map_append)
  also have "\<dots> = map Some (butlast (clips s)) @ [None, Some (last (clips s))]"
    using len by (simp add: list_update_append)
  finally show ?thesis using at(3) by simp
qed

lemma moveClip_beyond_keeps:
  assumes "moveClip (int index) dir s = None"
  shows "definedEntries (moveClipArray (int index) dir (map Some (clips s))) = clips s
         \<and> count (mset (moveClipArray (int index) dir (map Some (clips s)))) (Some c)
             = count (mset (clips s)) c"
proof -
  have arr: "moveClipArray (int index) dir (map Some (clips s))
               = map Some (butlast (clips s)) @ [None, Some (last (clips s))]"
       and ne: "clips s \<noteq> []"
    using moveClip_beyond [OF assms] by auto
  have whole: "butlast (clips s) @ [last (clips s)] = clips s"
    using ne by simp
  have "definedEntries (map Some (butlast (clips s)) @ [None, Some (last (clips s))])
          = butlast (clips s) @ [last (clips s)]"
    by (simp add: definedEntries_append definedEntries_Some definedEntries_None)
       (simp add: definedEntries_def)
  then have entries: "definedEntries (moveClipArray (int index) dir (map Some (clips s))) = clips s"
    using arr whole by simp
  have "count (mset (map Some (butlast (clips s)) @ [None, Some (last (clips s))])) (Some c)
          = count (mset (map Some (butlast (clips s) @ [last (clips s)]))) (Some c)"
    by simp
  then have "count (mset (map Some (butlast (clips s)) @ [None, Some (last (clips s))])) (Some c)
          = count (mset (clips s)) c"
    by (simp only: whole count_Some)
  then have "count (mset (moveClipArray (int index) dir (map Some (clips s)))) (Some c)
          = count (mset (clips s)) c"
    by (simp only: arr)
  with entries show ?thesis by blast
qed

lemma bitrateChange_keeps:
  "bitrateChange k s = Some s'
     \<Longrightarrow> clips s' = clips s \<and> bitrate s' \<in> set (map opt_value BITRATE_OPTIONS)"
  by (auto simp: bitrateChange_def setBitrate_def split: if_splits)

lemma handle_step_clips:
  assumes "handle e ev s = Inr (s', calls)"
  shows "(\<exists>new. clips s' = clips s @ new) \<or> mset (clips s') = mset (clips s)
         \<or> (\<exists>i. ev = RemoveClip i \<and> clips s' = filter (\<lambda>c. clip_id c \<noteq> i) (clips s))"
proof (cases ev)
  case Mount
  then show ?thesis using assms mount_keeps [of e s] by auto
next
  case Browse
  then show ?thesis using assms handleBrowse_clips [of e s] by auto
next
  case SelectImage
  then show ?thesis using assms handleSelectImage_keeps [of e s] by auto
next
  case (Drop files)
  then show ?thesis using assms handleDrop_clips [of e files s] by auto
next
  case (FileInputChange files)
  then show ?thesis using assms fileInputChange_clips [of e files s] by auto
next
  case (MoveClip index dir)
  then show ?thesis
    using assms moveClip_keeps [of "int index" dir s] by (auto split: option.splits)
next
  case (DragOverItem index)
  then show ?thesis
    using assms handleDragOverItem_keeps [of index s] by (auto split: sum.splits)
next
  case Export
  then show ?thesis using assms handleExport_keeps [of e s] by auto
next
  case (BitrateChange k)
  then show ?thesis
    using assms bitrateChange_keeps [of k s] by (auto split: option.splits)
next
  case (RemoveClip i)
  then show ?thesis using assms by (auto simp: removeClip_def)
qed (use assms in \<open>auto simp: handleRemoveImage_def handleDragOver_def handleDragLeave_def
      handleDragStart_def handleDragEnd_def setOutputName_def setExportFormat_def
      setImageFitMode_def closeToast_def\<close>)

lemma handle_crash_clips:
  assumes "handle e ev s = Inl (RenderThrows a rest)"
  shows "((\<exists>i d. ev = MoveClip i d) \<or> (\<exists>i. ev = DragOverItem i))
         \<and> definedEntries a = clips s
         \<and> count (mset a) (Some c) = count (mset (clips s)) c"
proof (cases ev)
  case (MoveClip index dir)
  then have none: "moveClip (int index) dir s = None"
        and a: "a = moveClipArray (int index) dir (map Some (clips s))"
    using assms by (auto split: option.splits)
  show ?thesis
    using moveClip_beyond_keeps [OF none, of c] MoveClip by (simp add: a)
next
  case (DragOverItem index)
  then have "handleDragOverItem index s = Inl (RenderThrows a rest)"
    using assms by (auto split: sum.splits)
  then have "a = take index (map Some (clips s)) @ [None] @ drop index (map Some (clips s))"
    using handleDragOverItem_crash by blast
  then show ?thesis
    using undefined_inserted [of index "clips s" c] DragOverItem by simp
qed (use assms in \<open>auto split: option.splits\<close>)

lemma handle_bitrate:
  assumes "handle e ev s = Inr (s', calls)"
  shows "bitrate s' = bitrate s \<or> bitrate s' \<in> set (map opt_value BITRATE_OPTIONS)"
proof (cases ev)
  case Mount
  then show ?thesis using assms mount_keeps [of e s] by auto
next
  case Browse
  then show ?thesis using assms handleBrowse_bitrate [of e s] by auto
next
  case SelectImage
  then show ?thesis using assms handleSelectImage_keeps [of e s] by auto
next
  case (Drop files)
  then show ?thesis using assms handleDrop_bitrate [of e files s] by auto
next
  case (FileInputChange files)
  then show ?thesis using assms fileInputChange_bitrate [of e files s] by auto
next
  case (MoveClip index dir)
  then show ?thesis
    using assms moveClip_keeps [of "int index" dir s] by (auto split: option.splits)
next
  case (DragOverItem index)
  then show ?thesis
    using assms handleDragOverItem_keeps [of index s] by (auto split: sum.splits)
next
  case Export
  then show ?thesis using assms handleExport_keeps [of e s] by auto
next
  case (BitrateChange k)
  then show ?thesis
    using assms bitrateChange_keeps [of k s] by (auto split: option.splits)
qed (use assms in \<open>auto simp: handleRemoveImage_def handleDragOver_def handleDragLeave_def
      handleDragStart_def handleDragEnd_def setOutputName_def setExportFormat_def
      setImageFitMode_def closeToast_def removeClip_def\<close>)

lemma reachable_run: "reachable s \<Longrightarrow> run e evs s = Some s' \<Longrightarrow> reachable s'"
proof (induction evs arbitrary: s)
  case Nil
  then show ?case by simp
next
  case (Cons ev evs)
  then obtain s1 calls where step: "handle e ev s = Inr (s1, calls)" "run e evs s1 = Some s'"
    by (auto split: sum.splits)
  have "reachable s1"
    using reachable_handle [OF Cons.prems(1) step(1)] .
  then show ?case using Cons.IH step(2) by blast
qed

section \<open>The example session, step by step\<close>

lemma example_mount:
  "fst (mount exampleEnv initial)
     = mounted\<lparr>ffmpegStatus := Some \<lparr>installed = True,
          version = Some (js ''ffmpeg version 6.0''), status_error = None\<rparr>\<rparr>"
  by (simp add: mount_def exampleEnv_def mounted_def Let_def)

lemma example_browse_clips:
  "clips (fst (handleBrowse exampleEnv (fst (mount exampleEnv initial)))) = [clipA, clipB]"
  unfolding example_mount
  by (simp add: handleBrowse_def addAudioFiles_def exampleEnv_def examplePaths_def
        mounted_def initial_def clipA_def clipB_def showToast_def split_beta
        isSupportedAudio_def toLowerCase_def lowerUnit_def lastIndexOf_def substring_def
        filenameOf_def lastSegment_def isSeparator_def orElse_def orElseNull_def
        SUPPORTED_EXTENSIONS_def js_def Let_def)

lemma example_browse_kept:
  "isInTauri (fst (handleBrowse exampleEnv (fst (mount exampleEnv initial))))
     \<and> exportFormat (fst (handleBrowse exampleEnv (fst (mount exampleEnv initial)))) = mp3
     \<and> draggedIndex (fst (handleBrowse exampleEnv (fst (mount exampleEnv initial)))) = None"
proof -
  obtain t new where
    "fst (addAudioFiles exampleEnv examplePaths (fst (mount exampleEnv initial)))
       = (fst (mount exampleEnv initial))\<lparr>clips := clips (fst (mount exampleEnv initial)) @ new,
            toast := t\<rparr>"
    using addAudioFiles_frame by blast
  then show ?thesis
    unfolding example_mount
    by (simp add: handleBrowse_def exampleEnv_def mounted_def initial_def split_beta)
qed

lemma example_staleDrag:
  "reachable staleDrag \<and> clips staleDrag = [clipB] \<and> draggedIndex staleDrag = Some 1"
proof -
  have ran: "run exampleEnv [Mount, Browse, DragStart 1, RemoveClip (js ''a'')] initial
      = Some (removeClip (js ''a'') (handleDragStart 1
                (fst (handleBrowse exampleEnv (fst (mount exampleEnv initial))))))"
    by (simp add: split_beta)
  then have eq: "staleDrag = removeClip (js ''a'') (handleDragStart 1
                (fst (handleBrowse exampleEnv (fst (mount exampleEnv initial)))))"
    by (simp add: staleDrag_def)
  have r: "reachable staleDrag"
    using reachable_run [OF reachable_initial ran] eq by simp
  have "clips staleDrag = [clipB]"
    by (simp add: eq removeClip_def handleDragStart_def example_browse_clips clipA_def
          clipB_def js_def)
  moreover have "draggedIndex staleDrag = Some 1"
    by (simp add: eq removeClip_def handleDragStart_def)
  ultimately show ?thesis using r by simp
qed

section \<open>Clips in a session\<close>

text \<open>
  C5. Whatever handler runs, and whether it leaves a next state or an array holding
  \<open>undefined\<close>, a clip of the session list is still an entry of the array in the \<open>clips\<close>
  cell afterwards, as the same value (identifier, path, name, duration and size) and at
  least as often as before, unless the handler is \<open>removeClip\<close> with that clip's identifier,
  which leaves no clip with that identifier; after moving and dragging the clips among
  the entries are those of the list before.
\<close>

theorem clip_survives_unchanged:
  "(ev \<noteq> RemoveClip (clip_id c)
      \<longrightarrow> count (mset (clips s)) c \<le> count (mset (clipsAfter (handle e ev s))) (Some c))
   \<and> (ev = RemoveClip (clip_id c) \<longrightarrow> Some c \<notin> set (clipsAfter (handle e ev s)))
   \<and> ((\<exists>i d. ev = MoveClip i d) \<or> (\<exists>i. ev = DragOverItem i)
        \<longrightarrow> mset (definedEntries (clipsAfter (handle e ev s))) = mset (clips s))"
proof (cases "handle e ev s")
  case (Inl crashed)
  obtain a rest where crashed: "crashed = RenderThrows a rest"
    by (cases crashed) auto
  have step: "handle e ev s = Inl (RenderThrows a rest)"
    using Inl crashed by simp
  have after: "clipsAfter (handle e ev s) = a"
    by (simp add: step)
  have facts: "(\<exists>i d. ev = MoveClip i d) \<or> (\<exists>i. ev = DragOverItem i)"
      "definedEntries a = clips s" "count (mset a) (Some c) = count (mset (clips s)) c"
    using handle_crash_clips [OF step, of c] by auto
  have "ev \<noteq> RemoveClip (clip_id c)"
    using facts(1) by auto
  then show ?thesis
    unfolding after using facts(2,3) by simp
next
  case (Inr next_state)
  obtain s' calls where step: "handle e ev s = Inr (s', calls)"
    using Inr by (cases next_state) auto
  have after: "clipsAfter (handle e ev s) = map Some (clips s')"
    by (simp add: step)
  have survives: "count (mset (clips s)) c \<le> count (mset (clips s')) c"
    if other: "ev \<noteq> RemoveClip (clip_id c)"
  proof -
    consider (grow) new where "clips s' = clips s @ new"
      | (perm) "mset (clips s') = mset (clips s)"
      | (remove) i where "ev = RemoveClip i"
          "clips s' = filter (\<lambda>c. clip_id c \<noteq> i) (clips s)"
      using handle_step_clips [OF step] by blast
    then show ?thesis
    proof cases
      case grow
      then show ?thesis by simp
    next
      case perm
      then show ?thesis by simp
    next
      case remove
      then have "clip_id c \<noteq> i" using other by auto
      then show ?thesis using remove(2) by simp
    qed
  qed
  have removed: "c \<notin> set (clips s')" if "ev = RemoveClip (clip_id c)"
    using that step by (auto simp: removeClip_def)
  have reorder: "mset (clips s') = mset (clips s)"
    if "(\<exists>i d. ev = MoveClip i d) \<or> (\<exists>i. ev = DragOverItem i)"
    using that step moveClip_keeps handleDragOverItem_keeps
    by (auto split: option.splits sum.splits)
  have "Some c \<notin> set (map Some (clips s'))" if "ev = RemoveClip (clip_id c)"
    using removed [OF that] by auto
  then show ?thesis
    unfolding after using survives reorder
    by (simp only: count_Some definedEntries_Some) blast
qed

theorem clip_survives_unchanged_witness:
  "handle exampleEnv (RemoveClip (js ''b'')) threeClips
     = Inr (threeClips\<lparr>clips := [clipA, clipC]\<rparr>, [])
   \<and> RemoveClip (js ''b'') \<noteq> RemoveClip (clip_id clipA)
   \<and> count (mset (clips threeClips)) clipA
       \<le> count (mset (clipsAfter (handle exampleEnv (RemoveClip (js ''b'')) threeClips)))
           (Some clipA)
   \<and> RemoveClip (js ''b'') = RemoveClip (clip_id clipB)
   \<and> clipB \<in> set (clips threeClips)
   \<and> Some clipB \<notin> set (clipsAfter (handle exampleEnv (RemoveClip (js ''b'')) threeClips))
   \<and> handle exampleEnv (DragOverItem 2) (threeClips\<lparr>draggedIndex := Some 0\<rparr>)
       = Inr (threeClips\<lparr>clips := [clipB, clipC, clipA], draggedIndex := Some 2\<rparr>, [])
   \<and> mset (definedEntries (clipsAfter
        (handle exampleEnv (DragOverItem 2) (threeClips\<lparr>draggedIndex := Some 0\<rparr>))))
       = mset (clips (threeClips\<lparr>draggedIndex := Some 0\<rparr>))
   \<and> reachable staleDrag \<and> clips staleDrag = [clipB] \<and> draggedIndex staleDrag = Some 1
   \<and> handle exampleEnv (DragOverItem 0) staleDrag
       = Inl (RenderThrows [None, Some clipB] (staleDrag\<lparr>draggedIndex := Some 0\<rparr>))
   \<and> DragOverItem 0 \<noteq> RemoveClip (clip_id clipB)
   \<and> count (mset (clips staleDrag)) clipB
       \<le> count (mset (clipsAfter (handle exampleEnv (DragOverItem 0) staleDrag))) (Some clipB)
   \<and> mset (definedEntries (clipsAfter (handle exampleEnv (DragOverItem 0) staleDrag)))
       = mset (clips staleDrag)"
proof -
  have ids: "clip_id clipA = js ''a''" "clip_id clipB = js ''b''" "clip_id clipC = js ''c''"
    by (simp_all add: clipA_def clipB_def clipC_def)
  have cl: "clips threeClips = [clipA, clipB, clipC]"
    by (simp add: threeClips_def)
  have remove: "handle exampleEnv (RemoveClip (js ''b'')) threeClips
                  = Inr (threeClips\<lparr>clips := [clipA, clipC]\<rparr>, [])"
    by (simp add: removeClip_def cl ids js_def)
  have drag: "handle exampleEnv (DragOverItem 2) (threeClips\<lparr>draggedIndex := Some 0\<rparr>)
       = Inr (threeClips\<lparr>clips := [clipB, clipC, clipA], draggedIndex := Some 2\<rparr>, [])"
    by (simp add: handleDragOverItem_def cl Let_def)
  have other: "RemoveClip (js ''b'') \<noteq> RemoveClip (clip_id clipA)"
    by (simp add: ids js_def)
  have target: "RemoveClip (js ''b'') = RemoveClip (clip_id clipB)"
    by (simp add: ids)
  have held: "clipB \<in> set (clips threeClips)"
    by (simp add: cl)
  have stale: "reachable staleDrag" "clips staleDrag = [clipB]" "draggedIndex staleDrag = Some 1"
    using example_staleDrag by simp_all
  have crash: "handle exampleEnv (DragOverItem 0) staleDrag
       = Inl (RenderThrows [None, Some clipB] (staleDrag\<lparr>draggedIndex := Some 0\<rparr>))"
    by (simp add: handleDragOverItem_def stale)
  have drags: "\<exists>i. DragOverItem 2 = DragOverItem i" "\<exists>i. DragOverItem 0 = DragOverItem i"
    by simp_all
  have no_remove: "DragOverItem 0 \<noteq> RemoveClip (clip_id clipB)"
    by simp
  show ?thesis
    using remove drag other target held stale crash no_remove
      clip_survives_unchanged [of "RemoveClip (js ''b'')" clipA threeClips exampleEnv]
      clip_survives_unchanged [of "RemoveClip (js ''b'')" clipB threeClips exampleEnv]
      clip_survives_unchanged [of "DragOverItem 2" clipA "threeClips\<lparr>draggedIndex := Some 0\<rparr>"
        exampleEnv]
      clip_survives_unchanged [of "DragOverItem 0" clipB staleDrag exampleEnv]
    by (simp only: drags simp_thms)
qed

section \<open>The bitrate\<close>

lemma bitrate_values:
  "set (map opt_value BITRATE_OPTIONS) = {js ''128k'', js ''192k'', js ''256k'', js ''320k''}"
  by (auto simp: BITRATE_OPTIONS_def)

lemma reachable_bitrate: "reachable s \<Longrightarrow> bitrate s \<in> set (map opt_value BITRATE_OPTIONS)"
proof (induction rule: reachable.induct)
  case reachable_initial
  show ?case by (simp add: initial_def BITRATE_OPTIONS_def)
next
  case (reachable_handle s e ev s' calls)
  then show ?case using handle_bitrate [of e ev s s' calls] by auto
qed

text \<open>
  C7. The bitrate starts as \<open>256k\<close>; the bitrate control stores the value of one of the four
  options; and in every state a session can reach, each stitch command of an export is
  handed one of \<open>128k\<close>, \<open>192k\<close>, \<open>256k\<close>, \<open>320k\<close>.
\<close>

theorem bitrate_from_options:
  "bitrate initial = js ''256k''
   \<and> (\<forall>k s'. bitrateChange k s = Some s'
         \<longrightarrow> bitrate s' \<in> {js ''128k'', js ''192k'', js ''256k'', js ''320k''})
   \<and> (reachable s
        \<longrightarrow> (\<forall>c \<in> set (snd (handleExport e s)). \<forall>b. bitrateHanded c = Some b
               \<longrightarrow> b \<in> {js ''128k'', js ''192k'', js ''256k'', js ''320k''}))"
proof (intro conjI impI allI)
  show "bitrate initial = js ''256k''"
    by (simp add: initial_def)
next
  fix k s'
  assume "bitrateChange k s = Some s'"
  then show "bitrate s' \<in> {js ''128k'', js ''192k'', js ''256k'', js ''320k''}"
    using bitrateChange_keeps [of k s s'] bitrate_values by auto
next
  assume "reachable s"
  then have inv: "bitrate s \<in> {js ''128k'', js ''192k'', js ''256k'', js ''320k''}"
    using reachable_bitrate bitrate_values by blast
  have "\<forall>c \<in> set (snd (handleExport e s)). \<forall>b. bitrateHanded c = Some b \<longrightarrow> b = bitrate s"
    by (auto simp: handleExport_def Let_def split: outcome.splits option.splits)
  then show "\<forall>c \<in> set (snd (handleExport e s)). \<forall>b. bitrateHanded c = Some b
               \<longrightarrow> b \<in> {js ''128k'', js ''192k'', js ''256k'', js ''320k''}"
    using inv by blast
qed

theorem bitrate_from_options_witness:
  "reachable picked
   \<and> bitrateChange 3 mounted = Some (mounted\<lparr>bitrate := js ''320k''\<rparr>)
   \<and> bitrate picked = js ''320k''
   \<and> Stitch_audio [clipA, clipB] (js ''/out/mix'') (js ''320k'')
        \<in> set (snd (handleExport exampleEnv picked))
   \<and> bitrateHanded (Stitch_audio [clipA, clipB] (js ''/out/mix'') (js ''320k''))
        = Some (js ''320k'')
   \<and> js ''320k'' \<in> {js ''128k'', js ''192k'', js ''256k'', js ''320k''}"
proof -
  have ran: "run exampleEnv [Mount, Browse, BitrateChange 3] initial
      = Some (setBitrate (js ''320k'')
                (fst (handleBrowse exampleEnv (fst (mount exampleEnv initial)))))"
    by (simp add: bitrateChange_def BITRATE_OPTIONS_def split_beta)
  then have picked: "picked
      = setBitrate (js ''320k'') (fst (handleBrowse exampleEnv (fst (mount exampleEnv initial))))"
    by (simp add: picked_def)
  have r: "reachable picked"
    using reachable_run [OF reachable_initial ran] picked by simp
  have state: "isInTauri picked \<and> clips picked = [clipA, clipB]
      \<and> bitrate picked = js ''320k'' \<and> exportFormat picked = mp3"
    using example_browse_clips example_browse_kept by (simp add: picked setBitrate_def)
  have call: "Stitch_audio [clipA, clipB] (js ''/out/mix'') (js ''320k'')
        \<in> set (snd (handleExport exampleEnv picked))"
    using state by (simp add: handleExport_def Let_def exampleEnv_def js_def)
  have change: "bitrateChange 3 mounted = Some (mounted\<lparr>bitrate := js ''320k''\<rparr>)"
    by (simp add: bitrateChange_def setBitrate_def BITRATE_OPTIONS_def)
  show ?thesis
    using r change state call bitrate_from_options [where s = picked and e = exampleEnv]
    by auto
qed

end
